theory Spec2Isabelle
  imports Main "HOL-Library.AList" "HOL-Library.Sublist"
begin

text \<open>
  The command invoker of knack, \<^verbatim>\<open>knack/invocation.py\<close>: the class
  \<^verbatim>\<open>CommandInvoker\<close> with its parameter filter, its validation chain, the search for an
  implicit deprecation and the method \<^verbatim>\<open>execute\<close>, which runs one command. The first
  part embeds the code, function by function and with the line numbers of the source;
  the second part proves its properties.
\<close>

section \<open>Python values\<close>

text \<open>
  The values that \<^verbatim>\<open>knack/invocation.py\<close> handles. Immutable values are written in
  place. A list is a mutable object: a value holds a reference \<open>PyRef a\<close> to it and the
  list itself lives in the heap, so that two names for one list see each other's
  \<^verbatim>\<open>append\<close>. \<open>PyFunc n\<close> is a plain function (a validator, a transformer), known by
  an identifier. \<open>PyObject c d\<close> is an instance of class \<open>c\<close> whose \<^verbatim>\<open>__dict__\<close> is
  \<open>d\<close>. A dict is an association list in insertion order, its keys distinct.
\<close>

datatype pyval =
    PyNone
  | PyBool bool
  | PyInt int
  | PyStr string
  | PyDict "(string \<times> pyval) list"
  | PyRef nat
  | PyFunc nat
  | PyObject string "(string \<times> pyval) list"

type_synonym pydict = "(string \<times> pyval) list"

type_synonym heap = "pyval list list"

definition heap_get :: "heap \<Rightarrow> nat \<Rightarrow> pyval list" where
  "heap_get h a = (if a < length h then h ! a else [])"

definition heap_alloc :: "heap \<Rightarrow> pyval list \<Rightarrow> nat \<times> heap" where
  "heap_alloc h xs = (length h, h @ [xs])"

definition heap_append :: "heap \<Rightarrow> nat \<Rightarrow> pyval \<Rightarrow> heap" where
  "heap_append h a x = (if a < length h then h[a := h ! a @ [x]] else h)"

text \<open>Python's truth value of an object (\<^verbatim>\<open>if x:\<close>).\<close>

fun truthy :: "heap \<Rightarrow> pyval \<Rightarrow> bool" where
  "truthy h PyNone = False"
| "truthy h (PyBool b) = b"
| "truthy h (PyInt i) = (i \<noteq> 0)"
| "truthy h (PyStr s) = (s \<noteq> [])"
| "truthy h (PyDict d) = (d \<noteq> [])"
| "truthy h (PyRef a) = (heap_get h a \<noteq> [])"
| "truthy h (PyFunc n) = True"
| "truthy h (PyObject c d) = True"

fun type_name :: "pyval \<Rightarrow> string" where
  "type_name PyNone = ''NoneType''"
| "type_name (PyBool b) = ''bool''"
| "type_name (PyInt i) = ''int''"
| "type_name (PyStr s) = ''str''"
| "type_name (PyDict d) = ''dict''"
| "type_name (PyRef a) = ''list''"
| "type_name (PyFunc n) = ''function''"
| "type_name (PyObject c d) = c"

section \<open>Strings\<close>

text \<open>
  A character is a code point up to 255. On these, \<^verbatim>\<open>str.lower\<close> maps the capital
  letters (codes 65 to 90, and 192 to 222 but for the multiplication sign 215) to the
  small ones, 32 further on, and \<^verbatim>\<open>str.split()\<close> splits at runs of white space
  (codes 9 to 13, 28 to 32, 133 and 160), giving no empty token.
\<close>

definition lower_char :: "char \<Rightarrow> char" where
  "lower_char c =
     (let n = (of_char c :: nat)
      in if (65 \<le> n \<and> n \<le> 90) \<or> (192 \<le> n \<and> n \<le> 222 \<and> n \<noteq> 215)
         then char_of (n + 32) else c)"

definition lower :: "string \<Rightarrow> string" where
  "lower s = map lower_char s"

definition startswith :: "string \<Rightarrow> string \<Rightarrow> bool" where
  "startswith s p = (take (length p) s = p)"

definition is_space :: "char \<Rightarrow> bool" where
  "is_space c =
     (let n = (of_char c :: nat)
      in (9 \<le> n \<and> n \<le> 13) \<or> (28 \<le> n \<and> n \<le> 32) \<or> n = 133 \<or> n = 160)"

fun split_acc :: "string \<Rightarrow> string \<Rightarrow> string list" where
  "split_acc cur [] = (if cur = [] then [] else [cur])"
| "split_acc cur (c # cs) =
     (if is_space c then (if cur = [] then split_acc [] cs else cur # split_acc [] cs)
      else split_acc (cur @ [c]) cs)"

definition split :: "string \<Rightarrow> string list" where
  "split s = split_acc [] s"

fun join :: "string \<Rightarrow> string list \<Rightarrow> string" where
  "join sep [] = []"
| "join sep [x] = x"
| "join sep (x # y # ys) = x @ sep @ join sep (y # ys)"

section \<open>The parameter filter\<close>

text \<open>
  \<^verbatim>\<open>dict(pairs)\<close>: the pairs are stored one after the other; a key that is already
  there keeps its place and takes the new value.
\<close>

definition dict_of_pairs :: "pydict \<Rightarrow> pydict" where
  "dict_of_pairs ps = foldl (\<lambda>d (k, v). AList.update k v d) [] ps"

text \<open>\<^verbatim>\<open>d.pop(k, None)\<close>, for its effect on \<open>d\<close>.\<close>

definition pop_default :: "string \<Rightarrow> pydict \<Rightarrow> pydict" where
  "pop_default k d = AList.delete k d"

text \<open>
  \<^verbatim>\<open>CommandInvoker._filter_params\<close> (lines 57 to 65). The argument is the
  \<^verbatim>\<open>__dict__\<close> of the parsed namespace.
\<close>

definition filter_params :: "pydict \<Rightarrow> pydict" where
  "filter_params args_dict =
     (let params = dict_of_pairs (filter (\<lambda>(key, val). \<not> startswith key ''_'') args_dict);
          params = pop_default ''func'' params;
          params = pop_default ''command'' params
      in params)"

section \<open>Exceptions\<close>

text \<open>
  An exception is its class and the text \<^verbatim>\<open>str(err)\<close> gives. \<open>CLIError\<close> is the
  user-facing error of \<^verbatim>\<open>knack.util\<close>; \<open>SystemExit\<close> and \<open>KeyboardInterrupt\<close> derive
  from \<^verbatim>\<open>BaseException\<close> only, every other class from \<^verbatim>\<open>Exception\<close>.
\<close>

datatype exn_class =
    CLIError | ValidationError | ParseError | KeyError | AttributeError | TypeError
  | OtherException | SystemExit | KeyboardInterrupt

datatype exn = Exn exn_class string

fun is_CLIError :: "exn \<Rightarrow> bool" where
  "is_CLIError (Exn c m) = (c = CLIError)"

fun is_Exception :: "exn \<Rightarrow> bool" where
  "is_Exception (Exn c m) = (c \<noteq> SystemExit \<and> c \<noteq> KeyboardInterrupt)"

fun str_exn :: "exn \<Rightarrow> string" where
  "str_exn (Exn c m) = m"

definition quoted :: "string \<Rightarrow> string" where
  "quoted s = CHR 0x27 # s @ [CHR 0x27]"

definition no_attribute :: "pyval \<Rightarrow> string \<Rightarrow> exn" where
  "no_attribute v k =
     Exn AttributeError (quoted (type_name v) @ '' object has no attribute '' @ quoted k)"

definition key_error :: "string \<Rightarrow> exn" where
  "key_error k = Exn KeyError (quoted k)"

section \<open>Invocation state\<close>

text \<open>
  \<^verbatim>\<open>self.data\<close>: a dict, or a \<^verbatim>\<open>defaultdict\<close> whose factory gives the value
  \<open>default_factory\<close> for a missing key and stores it.
\<close>

record inv_data =
  default_factory :: "pyval option"
  items :: pydict

definition data_getitem :: "inv_data \<Rightarrow> string \<Rightarrow> exn + pyval \<times> inv_data" where
  "data_getitem d k =
     (case map_of (items d) k of
        Some v \<Rightarrow> Inr (v, d)
      | None \<Rightarrow>
          (case default_factory d of
             None \<Rightarrow> Inl (key_error k)
           | Some v \<Rightarrow> Inr (v, d\<lparr>items := items d @ [(k, v)]\<rparr>)))"

definition data_setitem :: "inv_data \<Rightarrow> string \<Rightarrow> pyval \<Rightarrow> inv_data" where
  "data_setitem d k v = d\<lparr>items := AList.update k v (items d)\<rparr>"

text \<open>
  \<^verbatim>\<open>CommandInvoker.__init__\<close>, lines 49 and 50: \<^verbatim>\<open>initial_data or defaultdict(lambda: None)\<close>
  takes the caller's mapping when it is given and not empty.
\<close>

definition init_data :: "inv_data option \<Rightarrow> inv_data" where
  "init_data initial_data =
     (let data =
        (case initial_data of
           None \<Rightarrow> \<lparr>default_factory = Some PyNone, items = []\<rparr>
         | Some d \<Rightarrow> if items d \<noteq> [] then d else \<lparr>default_factory = Some PyNone, items = []\<rparr>)
      in data_setitem data ''command'' (PyStr ''unknown''))"

section \<open>Collaborators and the run state\<close>

text \<open>
  The parser, the command table loader, the event bus, the deprecation lookup and the
  handlers are not part of \<^verbatim>\<open>invocation.py\<close>; a run takes them as \<open>env\<close>.
  The command table maps a command name to a command object, an instance with the
  attributes \<open>name\<close>, \<open>deprecate_info\<close> and \<open>table_transformer\<close>.
  The parser is loaded from the loader, so what it answers depends on the table the
  loader built and on the command whose arguments were loaded: \<open>parse_args\<close> takes
  both. Parsing gives the namespace's \<^verbatim>\<open>__dict__\<close> and the lists it refers to, and may
  write to the invocation data (the query argument does).
  A validator may rebind attributes of the namespace and may raise.
  The hooks of the two result events rewrite the event data.
\<close>

record env =
  load_command_table :: "string list \<Rightarrow> pydict"
  parse_args :: "pydict \<Rightarrow> string \<Rightarrow> string list \<Rightarrow> inv_data \<Rightarrow> exn + pydict \<times> heap \<times> inv_data"
  run_validator :: "pyval \<Rightarrow> pydict \<Rightarrow> exn option \<times> pydict"
  resolve_deprecate_info :: "string \<Rightarrow> pyval"
  message :: "pyval \<Rightarrow> string"
  call_handler :: "pyval \<Rightarrow> pydict \<Rightarrow> exn + pyval"
  todict :: "pyval \<Rightarrow> pyval"
  transform_result_hook :: "pydict \<Rightarrow> pydict"
  filter_result_hook :: "pydict \<Rightarrow> pydict"
  top_parser :: pyval

datatype event =
    EVENT_INVOKER_PRE_CMD_TBL_CREATE
  | EVENT_INVOKER_POST_CMD_TBL_CREATE
  | EVENT_INVOKER_CMD_TBL_LOADED
  | EVENT_INVOKER_PRE_PARSE_ARGS
  | EVENT_INVOKER_POST_PARSE_ARGS
  | EVENT_INVOKER_TRANSFORM_RESULT
  | EVENT_INVOKER_FILTER_RESULT

datatype payload =
    Args "string list"
  | Cmd_tbl pydict
  | Parser pyval
  | Parsed pyval pydict
  | Event_data pydict

text \<open>What a run does to the outside, in the order it does it.\<close>

datatype action =
    Raise_event event payload
  | Load_command_table "string list"
  | Load_arguments string
  | Parser_load_command_table
  | Enable_autocomplete
  | Show_welcome
  | Parse_args "string list"
  | Call_validator pyval pydict
  | Validation_error pyval string
  | Resolve_deprecate_info string
  | Colorama_init
  | Print_stderr string
  | Colorama_deinit
  | Call_handler pyval pydict

text \<open>
  The state of a run: the invocation data, the \<^verbatim>\<open>__dict__\<close> of the parsed namespace,
  the heap of lists, the caller's argument list as the run has rewritten it, and the
  actions so far.
\<close>

record run_state =
  data :: inv_data
  ns :: pydict
  store :: heap
  argv :: "string list"
  trace :: "action list"

record command_result_item =
  result :: pyval
  table_transformer :: pyval
  is_query_active :: pyval

type_synonym 'a step = "run_state \<Rightarrow> (exn + 'a) \<times> run_state"

definition succeed :: "'a \<Rightarrow> 'a step" where
  "succeed x s = (Inr x, s)"

definition raise :: "exn \<Rightarrow> 'a step" where
  "raise e s = (Inl e, s)"

definition and_then :: "'a step \<Rightarrow> ('a \<Rightarrow> 'b step) \<Rightarrow> 'b step" where
  "and_then m f s = (case m s of (Inl e, s') \<Rightarrow> (Inl e, s') | (Inr x, s') \<Rightarrow> f x s')"

definition lift :: "exn + 'a \<Rightarrow> 'a step" where
  "lift r s = (case r of Inl e \<Rightarrow> (Inl e, s) | Inr x \<Rightarrow> (Inr x, s))"

definition modify :: "(run_state \<Rightarrow> run_state) \<Rightarrow> unit step" where
  "modify g s = (Inr (), g s)"

definition gets :: "(run_state \<Rightarrow> 'a) \<Rightarrow> 'a step" where
  "gets g s = (Inr (g s), s)"

definition emit :: "action \<Rightarrow> unit step" where
  "emit a s = (Inr (), s\<lparr>trace := trace s @ [a]\<rparr>)"

fun emit_all :: "action list \<Rightarrow> unit step" where
  "emit_all [] = succeed ()"
| "emit_all (a # as) = and_then (emit a) (\<lambda>_. emit_all as)"

text \<open>\<^verbatim>\<open>parsed_args.k\<close>, \<^verbatim>\<open>getattr(parsed_args, k, default)\<close> and \<^verbatim>\<open>obj.k\<close>.\<close>

definition getattr :: "string \<Rightarrow> pyval step" where
  "getattr k s =
     (case map_of (ns s) k of
        None \<Rightarrow> (Inl (no_attribute (PyObject ''Namespace'' []) k), s)
      | Some v \<Rightarrow> (Inr v, s))"

definition getattr_default :: "pydict \<Rightarrow> string \<Rightarrow> pyval \<Rightarrow> pyval" where
  "getattr_default d k dflt = (case map_of d k of None \<Rightarrow> dflt | Some v \<Rightarrow> v)"

definition obj_attr :: "pyval \<Rightarrow> string \<Rightarrow> exn + pyval" where
  "obj_attr v k =
     (case v of
        PyObject c d \<Rightarrow> (case map_of d k of None \<Rightarrow> Inl (no_attribute v k) | Some x \<Rightarrow> Inr x)
      | _ \<Rightarrow> Inl (no_attribute v k))"

text \<open>Whether calling the value can do anything but raise \<^verbatim>\<open>TypeError\<close>.\<close>

fun callable :: "pyval \<Rightarrow> bool" where
  "callable (PyFunc n) = True"
| "callable (PyObject c d) = True"
| "callable v = False"

definition not_callable :: "pyval \<Rightarrow> exn" where
  "not_callable v = Exn TypeError (quoted (type_name v) @ '' object is not callable'')"

text \<open>\<^verbatim>\<open>for x in v\<close>: the elements, or \<^verbatim>\<open>TypeError\<close>.\<close>

definition py_iter :: "heap \<Rightarrow> pyval \<Rightarrow> exn + pyval list" where
  "py_iter h v =
     (case v of
        PyRef a \<Rightarrow> Inr (heap_get h a)
      | PyStr s \<Rightarrow> Inr (map (\<lambda>c. PyStr [c]) s)
      | PyDict d \<Rightarrow> Inr (map (\<lambda>(k, x). PyStr k) d)
      | _ \<Rightarrow> Inl (Exn TypeError (quoted (type_name v) @ '' object is not iterable'')))"

section \<open>Rudimentary command name\<close>

text \<open>
  \<^verbatim>\<open>CommandInvoker._rudimentary_get_command\<close> (lines 67 to 78). The loop lower-cases the
  leading tokens in place, so the function gives the rewritten list with the nouns. An
  empty token raises \<^verbatim>\<open>IndexError\<close> at \<^verbatim>\<open>current[0]\<close>, which is passed over: it is a noun.
\<close>

fun rudimentary_nouns :: "string list \<Rightarrow> string list \<times> string list" where
  "rudimentary_nouns [] = ([], [])"
| "rudimentary_nouns (current # rest) =
     (if current \<noteq> [] \<and> hd current = CHR ''-'' then (current # rest, [])
      else (let (rest', nouns) = rudimentary_nouns rest
            in (lower current # rest', lower current # nouns)))"

definition rudimentary_get_command :: "string list \<Rightarrow> string \<times> string list" where
  "rudimentary_get_command args =
     (let (args', nouns) = rudimentary_nouns args in (join '' '' nouns, args'))"

section \<open>The validation chain\<close>

definition call_validator :: "env \<Rightarrow> pyval \<Rightarrow> unit step" where
  "call_validator env validator s =
     (if callable validator then
        (case run_validator env validator (ns s) of
           (None, ns') \<Rightarrow>
             (Inr (), s\<lparr>ns := ns', trace := trace s @ [Call_validator validator (ns s)]\<rparr>)
         | (Some err, ns') \<Rightarrow>
             (Inl err, s\<lparr>ns := ns', trace := trace s @ [Call_validator validator (ns s)]\<rparr>))
      else (Inl (not_callable validator), s))"

text \<open>\<^verbatim>\<open>delattr(ns, k)\<close> with the \<^verbatim>\<open>AttributeError\<close> of a missing attribute passed over.\<close>

definition delattr_quiet :: "string \<Rightarrow> unit step" where
  "delattr_quiet k s =
     (if map_of (ns s) k = None then (Inr (), s) else (Inr (), s\<lparr>ns := AList.delete k (ns s)\<rparr>))"

text \<open>\<^verbatim>\<open>_validate_cmd_level\<close> (lines 80 to 86).\<close>

definition validate_cmd_level :: "env \<Rightarrow> pyval \<Rightarrow> unit step" where
  "validate_cmd_level env cmd_validator =
     and_then
       (\<lambda>s. if truthy (store s) cmd_validator then call_validator env cmd_validator s
            else succeed () s)
       (\<lambda>_. delattr_quiet ''_command_validator'')"

fun run_validators :: "env \<Rightarrow> pyval list \<Rightarrow> unit step" where
  "run_validators env [] = succeed ()"
| "run_validators env (validator # rest) =
     and_then (call_validator env validator) (\<lambda>_. run_validators env rest)"

text \<open>\<^verbatim>\<open>_validate_arg_level\<close> (lines 88 to 94).\<close>

definition validate_arg_level :: "env \<Rightarrow> unit step" where
  "validate_arg_level env =
     and_then
       (\<lambda>s. case map_of (ns s) ''_argument_validators'' of
              None \<Rightarrow> succeed [] s
            | Some v \<Rightarrow> lift (py_iter (store s) v) s)
       (\<lambda>validators.
          and_then (run_validators env validators) (\<lambda>_. delattr_quiet ''_argument_validators''))"

text \<open>
  Modelled from the spec: \<^verbatim>\<open>validation_error\<close> of the parser (\<^verbatim>\<open>knack/parser.py\<close>, not
  among the sources). The parser reports the message and the run fails with a
  validation error that carries it.
\<close>

definition validation_error :: "pyval \<Rightarrow> string \<Rightarrow> unit step" where
  "validation_error parser msg =
     and_then (emit (Validation_error parser msg)) (\<lambda>_. raise (Exn ValidationError msg))"

text \<open>\<^verbatim>\<open>_validation\<close> (lines 96 to 107).\<close>

definition validation :: "env \<Rightarrow> unit step" where
  "validation env s =
     (let cmd_validator = getattr_default (ns s) ''_command_validator'' PyNone in
      case (if truthy (store s) cmd_validator then validate_cmd_level env cmd_validator s
            else validate_arg_level env s) of
        (Inr u, s') \<Rightarrow> (Inr u, s')
      | (Inl err, s') \<Rightarrow>
          if is_CLIError err then (Inl err, s')
          else if is_Exception err then
            validation_error (getattr_default (ns s') ''_parser'' (top_parser env)) (str_exn err) s'
          else (Inl err, s'))"

section \<open>Deprecation\<close>

text \<open>
  The search for an implicit deprecation, lines 155 to 158: the loop over
  \<^verbatim>\<open>path_comps\<close> and \<^verbatim>\<open>implicit_deprecate_info\<close>. Each turn looks the joined path up and
  drops the last token.
\<close>

function search_implicit :: "env \<Rightarrow> string list \<Rightarrow> pyval \<Rightarrow> pyval step" where
  "search_implicit env path_comps implicit_deprecate_info s =
     (if path_comps \<noteq> [] \<and> \<not> truthy (store s) implicit_deprecate_info then
        search_implicit env (butlast path_comps)
          (resolve_deprecate_info env (join '' '' path_comps))
          (s\<lparr>trace := trace s @ [Resolve_deprecate_info (join '' '' path_comps)]\<rparr>)
      else (Inr implicit_deprecate_info, s))"
  by pat_completeness auto
termination
  by (relation "measure (\<lambda>(env, path_comps, info, s). length path_comps)") auto

declare search_implicit.simps [simp del]

text \<open>\<^verbatim>\<open>del d[k]\<close>.\<close>

definition dict_delitem :: "string \<Rightarrow> pydict \<Rightarrow> exn + pydict" where
  "dict_delitem k d = (if map_of d k = None then Inl (key_error k) else Inr (AList.delete k d))"

text \<open>\<^verbatim>\<open>v.__dict__.copy()\<close>: an instance has a \<^verbatim>\<open>__dict__\<close>, and so has a function (an empty one).\<close>

definition dict_copy :: "pyval \<Rightarrow> exn + pydict" where
  "dict_copy v =
     (case v of
        PyObject c d \<Rightarrow> Inr d
      | PyFunc n \<Rightarrow> Inr []
      | _ \<Rightarrow> Inl (no_attribute v ''__dict__''))"

text \<open>
  Lines 161 to 165. The constructor \<^verbatim>\<open>ImplicitDeprecated\<close> is not among the sources: the
  object it builds is written as an instance of that class holding the keyword arguments
  it was given.
\<close>

definition implicit_deprecated :: "pyval \<Rightarrow> exn + pyval" where
  "implicit_deprecated implicit_deprecate_info =
     (case dict_copy implicit_deprecate_info of
        Inl e \<Rightarrow> Inl e
      | Inr deprecate_kwargs \<Rightarrow>
          (let deprecate_kwargs = AList.update ''object_type'' (PyStr ''command'') deprecate_kwargs
           in case dict_delitem ''_get_tag'' deprecate_kwargs of
                Inl e \<Rightarrow> Inl e
              | Inr deprecate_kwargs \<Rightarrow>
                  (case dict_delitem ''_get_message'' deprecate_kwargs of
                     Inl e \<Rightarrow> Inl e
                   | Inr deprecate_kwargs \<Rightarrow> Inr (PyObject ''ImplicitDeprecated'' deprecate_kwargs))))"

text \<open>\<^verbatim>\<open>getattr(parsed_args, k, [])\<close>: the attribute, or a new empty list.\<close>

definition getattr_or_new_list :: "string \<Rightarrow> pyval step" where
  "getattr_or_new_list k s =
     (case map_of (ns s) k of
        Some v \<Rightarrow> (Inr v, s)
      | None \<Rightarrow> (case heap_alloc (store s) [] of (a, h) \<Rightarrow> (Inr (PyRef a), s\<lparr>store := h\<rparr>)))"

text \<open>\<^verbatim>\<open>l.append(x)\<close>.\<close>

definition list_append :: "pyval \<Rightarrow> pyval \<Rightarrow> unit step" where
  "list_append l x s =
     (case l of
        PyRef a \<Rightarrow> (Inr (), s\<lparr>store := heap_append (store s) a x\<rparr>)
      | _ \<Rightarrow> (Inl (no_attribute l ''append''), s))"

text \<open>\<^verbatim>\<open>name.split()\<close>, for a value that has to be a string.\<close>

definition str_split :: "pyval \<Rightarrow> exn + string list" where
  "str_split v = (case v of PyStr s \<Rightarrow> Inr (split s) | _ \<Rightarrow> Inl (no_attribute v ''split''))"

text \<open>
  Lines 154 to 165 without the final \<^verbatim>\<open>append\<close>: the deprecation a command inherits
  from the groups above it, if there is one. The argument is \<^verbatim>\<open>cmd.name\<close>.
\<close>

definition implicit_deprecation :: "env \<Rightarrow> pyval \<Rightarrow> pyval option step" where
  "implicit_deprecation env name =
     and_then (lift (str_split name)) (\<lambda>comps.
     and_then (search_implicit env (butlast comps) PyNone) (\<lambda>implicit_deprecate_info.
     (\<lambda>s. if truthy (store s) implicit_deprecate_info then
            and_then (lift (implicit_deprecated implicit_deprecate_info)) (\<lambda>d. succeed (Some d)) s
          else succeed None s)))"

text \<open>
  Lines 148 to 165 of \<^verbatim>\<open>execute\<close>: the list of deprecations to warn about. The step gives
  the list (a reference).
\<close>

definition collect_deprecations :: "env \<Rightarrow> pyval step" where
  "collect_deprecations env =
     and_then (getattr ''func'') (\<lambda>cmd.
     and_then (getattr_or_new_list ''_argument_deprecations'') (\<lambda>deprecations.
     and_then (lift (obj_attr cmd ''deprecate_info'')) (\<lambda>deprecate_info.
     and_then
       (\<lambda>s. if truthy (store s) deprecate_info then list_append deprecations deprecate_info s
            else succeed () s) (\<lambda>_.
     and_then (lift (obj_attr cmd ''name'')) (\<lambda>name.
     and_then (implicit_deprecation env name) (\<lambda>implicit.
     and_then
       (case implicit of
          Some d \<Rightarrow> list_append deprecations d
        | None \<Rightarrow> succeed ()) (\<lambda>_.
     succeed deprecations)))))))"

text \<open>
  Lines 167 to 170. The property \<^verbatim>\<open>message\<close> of a deprecation object belongs to
  \<^verbatim>\<open>knack/deprecation.py\<close>; the collaborators give it.
\<close>

definition print_deprecations :: "env \<Rightarrow> pyval \<Rightarrow> unit step" where
  "print_deprecations env deprecations =
     and_then (emit Colorama_init) (\<lambda>_.
     and_then (\<lambda>s. lift (py_iter (store s) deprecations) s) (\<lambda>ds.
     and_then (emit_all (map (\<lambda>d. Print_stderr (message env d)) ds)) (\<lambda>_.
     emit Colorama_deinit)))"

section \<open>The run\<close>

text \<open>Lines 119 to 126: the command table is built and registered with the parser.\<close>

definition load_stage :: "env \<Rightarrow> string list \<Rightarrow> (pydict \<times> string \<times> string list) step" where
  "load_stage env args =
     and_then (emit (Raise_event EVENT_INVOKER_PRE_CMD_TBL_CREATE (Args args))) (\<lambda>_.
     and_then (emit (Load_command_table args)) (\<lambda>_.
     let cmd_tbl = load_command_table env args;
         (command, args) = rudimentary_get_command args
     in
     and_then (modify (\<lambda>s. s\<lparr>argv := args\<rparr>)) (\<lambda>_.
     and_then (emit (Load_arguments command)) (\<lambda>_.
     and_then (emit (Raise_event EVENT_INVOKER_POST_CMD_TBL_CREATE (Cmd_tbl cmd_tbl))) (\<lambda>_.
     and_then (emit Parser_load_command_table) (\<lambda>_.
     and_then (emit (Raise_event EVENT_INVOKER_CMD_TBL_LOADED (Parser (top_parser env)))) (\<lambda>_.
     succeed (cmd_tbl, command, args))))))))"

text \<open>Lines 128 to 131, the run without arguments.\<close>

definition show_welcome :: "command_result_item option step" where
  "show_welcome =
     and_then (emit Enable_autocomplete) (\<lambda>_.
     and_then (emit Show_welcome) (\<lambda>_.
     succeed None))"

text \<open>Lines 133 and 134, on a list that is not empty.\<close>

definition normalize_help :: "string list \<Rightarrow> string list" where
  "normalize_help args =
     (case args of
        [] \<Rightarrow> []
      | first # rest \<Rightarrow> if lower first = ''help'' then ''--help'' # rest else first # rest)"

text \<open>Lines 136 to 140.\<close>

definition parse_stage :: "env \<Rightarrow> pydict \<Rightarrow> string \<Rightarrow> string list \<Rightarrow> unit step" where
  "parse_stage env cmd_tbl command args =
     and_then (emit Enable_autocomplete) (\<lambda>_.
     and_then (emit (Raise_event EVENT_INVOKER_PRE_PARSE_ARGS (Args args))) (\<lambda>_.
     and_then (emit (Parse_args args)) (\<lambda>_.
     and_then
       (\<lambda>s. case parse_args env cmd_tbl command args (data s) of
              Inl e \<Rightarrow> (Inl e, s)
            | Inr (parsed, h, d) \<Rightarrow> (Inr (), s\<lparr>data := d, ns := parsed, store := h\<rparr>)) (\<lambda>_.
     and_then (getattr ''command'') (\<lambda>command_name.
     (\<lambda>s. emit (Raise_event EVENT_INVOKER_POST_PARSE_ARGS (Parsed command_name (ns s))) s))))))"

text \<open>
  \<^verbatim>\<open>repr\<close> of a value that can be a key: the text of the \<^verbatim>\<open>KeyError\<close> for it. For a
  function or an instance, whose \<^verbatim>\<open>repr\<close> shows an address, the name of the type stands
  for it.
\<close>

function show_nat :: "nat \<Rightarrow> string" where
  "show_nat n =
     (if n < 10 then [char_of (48 + n)] else show_nat (n div 10) @ [char_of (48 + n mod 10)])"
  by pat_completeness auto
termination
  by (relation "measure (\<lambda>n. n)") auto

declare show_nat.simps [simp del]

definition repr_key :: "pyval \<Rightarrow> string" where
  "repr_key v =
     (case v of
        PyNone \<Rightarrow> ''None''
      | PyBool b \<Rightarrow> (if b then ''True'' else ''False'')
      | PyInt i \<Rightarrow> (if i < 0 then CHR ''-'' # show_nat (nat (- i)) else show_nat (nat i))
      | PyStr s \<Rightarrow> quoted s
      | _ \<Rightarrow> CHR ''<'' # type_name v @ '' object>'')"

text \<open>\<^verbatim>\<open>d[k]\<close> for a dict, and \<^verbatim>\<open>cmd_tbl[k]\<close> for a key that is any value.\<close>

definition dict_getitem :: "pydict \<Rightarrow> string \<Rightarrow> exn + pyval" where
  "dict_getitem d k = (case map_of d k of None \<Rightarrow> Inl (key_error k) | Some v \<Rightarrow> Inr v)"

definition tbl_getitem :: "pydict \<Rightarrow> pyval \<Rightarrow> exn + pyval" where
  "tbl_getitem tbl key =
     (case key of
        PyStr k \<Rightarrow> dict_getitem tbl k
      | PyDict d \<Rightarrow> Inl (Exn TypeError ''unhashable type: dict'')
      | PyRef a \<Rightarrow> Inl (Exn TypeError ''unhashable type: list'')
      | _ \<Rightarrow> Inl (Exn KeyError (repr_key key)))"

definition call_func :: "env \<Rightarrow> pyval \<Rightarrow> pydict \<Rightarrow> pyval step" where
  "call_func env f params s =
     (if callable f then
        (case call_handler env f params of
           Inl e \<Rightarrow> (Inl e, s\<lparr>trace := trace s @ [Call_handler f params]\<rparr>)
         | Inr r \<Rightarrow> (Inr r, s\<lparr>trace := trace s @ [Call_handler f params]\<rparr>))
      else (Inl (not_callable f), s))"

definition data_get :: "string \<Rightarrow> pyval step" where
  "data_get k s =
     (case data_getitem (data s) k of
        Inl e \<Rightarrow> (Inl e, s)
      | Inr (v, d) \<Rightarrow> (Inr v, s\<lparr>data := d\<rparr>))"

text \<open>Lines 172 to 181: the handler, the two result events and the result item.\<close>

definition result_stage :: "env \<Rightarrow> pydict \<Rightarrow> pydict \<Rightarrow> command_result_item option step" where
  "result_stage env cmd_tbl params =
     and_then (getattr ''func'') (\<lambda>func.
     and_then (call_func env func params) (\<lambda>cmd_result.
     let cmd_result = todict env cmd_result;
         event_data = [(''result'', cmd_result)]
     in
     and_then (emit (Raise_event EVENT_INVOKER_TRANSFORM_RESULT (Event_data event_data))) (\<lambda>_.
     let event_data = transform_result_hook env event_data in
     and_then (emit (Raise_event EVENT_INVOKER_FILTER_RESULT (Event_data event_data))) (\<lambda>_.
     let event_data = filter_result_hook env event_data in
     and_then (lift (dict_getitem event_data ''result'')) (\<lambda>res.
     and_then (getattr ''command'') (\<lambda>command_name.
     and_then (lift (tbl_getitem cmd_tbl command_name)) (\<lambda>cmd.
     and_then (lift (obj_attr cmd ''table_transformer'')) (\<lambda>transformer.
     and_then (data_get ''query_active'') (\<lambda>query_active.
     succeed (Some \<lparr>result = res, table_transformer = transformer,
                    is_query_active = query_active\<rparr>))))))))))"

text \<open>Lines 144 to 181: what follows the validation.\<close>

definition after_validation :: "env \<Rightarrow> pydict \<Rightarrow> command_result_item option step" where
  "after_validation env cmd_tbl =
     and_then (getattr ''command'') (\<lambda>command_name.
     and_then (modify (\<lambda>s. s\<lparr>data := data_setitem (data s) ''command'' command_name\<rparr>)) (\<lambda>_.
     and_then (gets (\<lambda>s. filter_params (ns s))) (\<lambda>params.
     and_then (collect_deprecations env) (\<lambda>deprecations.
     and_then (print_deprecations env deprecations) (\<lambda>_.
     result_stage env cmd_tbl params)))))"

text \<open>Lines 136 to 181: the run of a command, from parsing on.\<close>

definition run_command ::
  "env \<Rightarrow> pydict \<Rightarrow> string \<Rightarrow> string list \<Rightarrow> command_result_item option step" where
  "run_command env cmd_tbl command args =
     and_then (parse_stage env cmd_tbl command args) (\<lambda>_.
     and_then (validation env) (\<lambda>_.
     after_validation env cmd_tbl))"

text \<open>\<^verbatim>\<open>CommandInvoker.execute\<close> (lines 109 to 181).\<close>

definition execute :: "env \<Rightarrow> string list \<Rightarrow> command_result_item option step" where
  "execute env args =
     and_then (load_stage env args) (\<lambda>(cmd_tbl, command, args).
       if args = [] then show_welcome
       else
         and_then (modify (\<lambda>s. s\<lparr>argv := normalize_help args\<rparr>)) (\<lambda>_.
         run_command env cmd_tbl command (normalize_help args)))"

text \<open>The state in which a new invoker starts its run.\<close>

definition init_state :: "inv_data option \<Rightarrow> run_state" where
  "init_state initial_data =
     \<lparr>data = init_data initial_data, ns = [], store = [], argv = [], trace = []\<rparr>"

section \<open>The ancestors of a command\<close>

text \<open>
  From the words of the specification: the paths of the ancestor groups of a command are
  the non-empty prefixes of its ancestor tokens, each joined by single spaces, the
  deepest group first.
\<close>

definition ancestor_paths :: "string list \<Rightarrow> string list" where
  "ancestor_paths comps = map (join '' '') (rev (tl (prefixes comps)))"

section \<open>Notions for the statements\<close>

text \<open>
  The run of \<^verbatim>\<open>execute\<close> on \<open>args\<close> from the state \<open>s0\<close> has parsed its arguments
  and stands before the validation chain in the state \<open>s\<close>.
\<close>

definition reaches_validation :: "env \<Rightarrow> string list \<Rightarrow> run_state \<Rightarrow> run_state \<Rightarrow> bool" where
  "reaches_validation env args s0 s =
     (case load_stage env args s0 of
        (Inr (cmd_tbl, command, args'), s1) \<Rightarrow>
          args' \<noteq> [] \<and>
          parse_stage env cmd_tbl command (normalize_help args')
            (s1\<lparr>argv := normalize_help args'\<rparr>) = (Inr (), s)
      | (Inl e, s1) \<Rightarrow> False)"

text \<open>
  Validators called one after the other, each on the namespace the one before left: the
  calls this makes, whether all of them return, and the namespace they leave.
\<close>

fun validator_calls :: "env \<Rightarrow> pyval list \<Rightarrow> pydict \<Rightarrow> (pyval \<times> pydict) list" where
  "validator_calls env [] d = []"
| "validator_calls env (v # vs) d =
     (v, d) # validator_calls env vs (snd (run_validator env v d))"

definition call_actions :: "(pyval \<times> pydict) list \<Rightarrow> action list" where
  "call_actions calls = map (\<lambda>(v, d). Call_validator v d) calls"

fun validators_pass :: "env \<Rightarrow> pyval list \<Rightarrow> pydict \<Rightarrow> bool" where
  "validators_pass env [] d = True"
| "validators_pass env (v # vs) d =
     (callable v \<and> fst (run_validator env v d) = None
      \<and> validators_pass env vs (snd (run_validator env v d)))"

fun ns_after :: "env \<Rightarrow> pyval list \<Rightarrow> pydict \<Rightarrow> pydict" where
  "ns_after env [] d = d"
| "ns_after env (v # vs) d = ns_after env vs (snd (run_validator env v d))"

fun is_validator_call :: "action \<Rightarrow> bool" where
  "is_validator_call (Call_validator v d) = True"
| "is_validator_call a = False"

text \<open>The command validator and the argument validators attached to the namespace of a state.\<close>

definition command_validator :: "run_state \<Rightarrow> pyval" where
  "command_validator s = getattr_default (ns s) ''_command_validator'' PyNone"

definition argument_validators :: "run_state \<Rightarrow> exn + pyval list" where
  "argument_validators s =
     (case map_of (ns s) ''_argument_validators'' of
        None \<Rightarrow> Inr []
      | Some v \<Rightarrow> py_iter (store s) v)"

text \<open>
  The state once the explicit deprecation of the command, if it has one, is appended to
  the list at the address \<open>a\<close>.
\<close>

definition with_explicit :: "run_state \<Rightarrow> nat \<Rightarrow> pyval \<Rightarrow> run_state" where
  "with_explicit s a explicit =
     (if truthy (store s) explicit then s\<lparr>store := heap_append (store s) a explicit\<rparr> else s)"

text \<open>The state with the actions \<open>p\<close> put before its trace.\<close>

definition shift :: "action list \<Rightarrow> run_state \<Rightarrow> run_state" where
  "shift p s = s\<lparr>trace := p @ trace s\<rparr>"


fun is_event :: "action \<Rightarrow> bool" where
  "is_event (Raise_event e p) = True"
| "is_event a = False"

section \<open>A sample application\<close>

text \<open>
  A small command table for the concrete runs below: the command \<open>vm create\<close>, which is
  deprecated itself and lies in the deprecated group \<open>vm\<close>, and the command
  \<open>net vnet subnet list\<close>, which is not deprecated and lies in the groups \<open>net\<close> and
  \<open>net vnet\<close>, both deprecated. The sample parser knows the commands \<open>vm create\<close>,
  \<open>vm delete\<close>, \<open>vm show\<close>, \<open>vm list\<close> and \<open>vm stop\<close>; on \<open>--help\<close> it shows the help
  and exits.
\<close>

definition deprecated :: "string \<Rightarrow> string \<Rightarrow> pyval" where
  "deprecated object_type target = PyObject ''Deprecated''
     [(''object_type'', PyStr object_type), (''target'', PyStr target),
      (''redirect'', PyNone), (''hide'', PyBool False),
      (''_get_tag'', PyFunc 10), (''_get_message'', PyFunc 11)]"

definition vm_create :: pyval where
  "vm_create = PyObject ''CLICommand''
     [(''name'', PyStr ''vm create''),
      (''deprecate_info'', deprecated ''command'' ''vm create''),
      (''table_transformer'', PyNone)]"

definition subnet_list :: pyval where
  "subnet_list = PyObject ''CLICommand''
     [(''name'', PyStr ''net vnet subnet list''),
      (''deprecate_info'', PyNone),
      (''table_transformer'', PyFunc 20)]"

definition sample_table :: pydict where
  "sample_table = [(''vm create'', vm_create), (''net vnet subnet list'', subnet_list)]"

text \<open>The namespace the sample parser gives for \<open>vm create\<close>, and the lists it refers to.\<close>

definition vm_create_ns :: pydict where
  "vm_create_ns =
     [(''name'', PyStr ''box''), (''func'', vm_create), (''command'', PyStr ''vm create''),
      (''_command_validator'', PyNone), (''_argument_validators'', PyRef 0),
      (''_argument_deprecations'', PyRef 1), (''_parser'', PyObject ''CLICommandParser'' [])]"

definition vm_create_lists :: heap where
  "vm_create_lists = [[PyFunc 1, PyFunc 2], [deprecated ''argument'' ''--name'']]"

text \<open>
  The namespaces for \<open>vm delete\<close>, whose second argument validator fails, and for
  \<open>vm show\<close>, which has a command validator, and their lists.
\<close>

definition vm_delete_ns :: pydict where
  "vm_delete_ns =
     [(''name'', PyStr ''box''), (''func'', vm_create), (''command'', PyStr ''vm delete''),
      (''_command_validator'', PyNone), (''_argument_validators'', PyRef 0),
      (''_parser'', PyObject ''CLICommandParser'' [(''prog'', PyStr ''sample vm delete'')])]"

definition vm_delete_lists :: heap where
  "vm_delete_lists = [[PyFunc 1, PyFunc 4, PyFunc 3]]"

definition vm_show_ns :: pydict where
  "vm_show_ns =
     [(''name'', PyStr ''box''), (''func'', vm_create), (''command'', PyStr ''vm show''),
      (''_command_validator'', PyFunc 3), (''_argument_validators'', PyRef 0)]"

definition vm_show_lists :: heap where
  "vm_show_lists = [[PyFunc 4]]"

text \<open>
  The namespace for \<open>vm list\<close>: its command validator returns, and its one argument
  validator would raise.
\<close>

definition vm_list_ns :: pydict where
  "vm_list_ns =
     [(''name'', PyStr ''box''), (''_command_validator'', PyFunc 1), (''func'', vm_create),
      (''command'', PyStr ''vm list''), (''_argument_validators'', PyRef 0)]"

text \<open>The namespace for \<open>vm stop\<close>: its command validator asks the process to exit.\<close>

definition vm_stop_ns :: pydict where
  "vm_stop_ns =
     [(''name'', PyStr ''box''), (''func'', vm_create), (''command'', PyStr ''vm stop''),
      (''_command_validator'', PyFunc 5)]"

text \<open>
  The sample validators: \<open>PyFunc 1\<close> sets the field \<open>checked\<close>, \<open>PyFunc 3\<close> raises a
  \<open>CLIError\<close>, \<open>PyFunc 4\<close> raises another exception, \<open>PyFunc 5\<close> calls
  \<^verbatim>\<open>sys.exit(2)\<close>, each other one just returns.
\<close>

definition sample_validator :: "pyval \<Rightarrow> pydict \<Rightarrow> exn option \<times> pydict" where
  "sample_validator v d =
     (if v = PyFunc 1 then (None, AList.update ''checked'' (PyBool True) d)
      else if v = PyFunc 3 then (Some (Exn CLIError ''name is taken''), d)
      else if v = PyFunc 4 then (Some (Exn OtherException ''boom''), d)
      else if v = PyFunc 5 then (Some (Exn SystemExit ''2''), d)
      else (None, d))"

definition sample_env :: env where
  "sample_env = \<lparr>
     load_command_table = (\<lambda>args. sample_table),
     parse_args = (\<lambda>tbl command args d.
        if args = [''vm'', ''create''] then Inr (vm_create_ns, vm_create_lists, d)
        else if args = [''vm'', ''delete''] then Inr (vm_delete_ns, vm_delete_lists, d)
        else if args = [''vm'', ''show''] then Inr (vm_show_ns, vm_show_lists, d)
        else if args = [''vm'', ''list''] then Inr (vm_list_ns, vm_show_lists, d)
        else if args = [''vm'', ''stop''] then Inr (vm_stop_ns, [], d)
        else if args = [''--help''] then Inl (Exn SystemExit ''0'')
        else Inl (Exn ParseError ''usage'')),
     run_validator = sample_validator,
     resolve_deprecate_info = (\<lambda>path.
        if path = ''vm'' then deprecated ''command group'' ''vm''
        else if path = ''net'' then deprecated ''command group'' ''net''
        else if path = ''net vnet'' then deprecated ''command group'' ''net vnet''
        else PyNone),
     message = (\<lambda>d. case obj_attr d ''target'' of Inr (PyStr t) \<Rightarrow> type_name d @ '' '' @ t | _ \<Rightarrow> []),
     call_handler = (\<lambda>f params. Inr (PyDict params)),
     todict = (\<lambda>v. v),
     transform_result_hook = (\<lambda>d. [(''result'', PyDict [(''a'', PyInt 1)])]),
     filter_result_hook = (\<lambda>d.
        case map_of d ''result'' of
          Some (PyDict r) \<Rightarrow> [(''result'', PyDict (r @ [(''b'', PyInt 2)]))]
        | _ \<Rightarrow> d),
     top_parser = PyObject ''CLICommandParser'' [(''prog'', PyStr ''sample'')]\<rparr>"

text \<open>The state in which the sample run on the given tokens stands before the validation.\<close>

definition sample_parsed :: "string list \<Rightarrow> pydict \<Rightarrow> heap \<Rightarrow> run_state" where
  "sample_parsed args parsed h =
     \<lparr>data = init_data None, ns = parsed, store = h, argv = args,
      trace =
        [Raise_event EVENT_INVOKER_PRE_CMD_TBL_CREATE (Args args),
         Load_command_table args,
         Load_arguments (join '' '' args),
         Raise_event EVENT_INVOKER_POST_CMD_TBL_CREATE (Cmd_tbl sample_table),
         Parser_load_command_table,
         Raise_event EVENT_INVOKER_CMD_TBL_LOADED (Parser (top_parser sample_env)),
         Enable_autocomplete,
         Raise_event EVENT_INVOKER_PRE_PARSE_ARGS (Args args),
         Parse_args args,
         Raise_event EVENT_INVOKER_POST_PARSE_ARGS (Parsed (getattr_default parsed ''command'' PyNone) parsed)]\<rparr>"

text \<open>The state of the sample run of \<open>vm create\<close> after the validation.\<close>

definition vm_create_validated :: run_state where
  "vm_create_validated =
     (sample_parsed [''vm'', ''create''] vm_create_ns vm_create_lists)
       \<lparr>ns := [(''name'', PyStr ''box''), (''func'', vm_create),
                (''command'', PyStr ''vm create''), (''_command_validator'', PyNone),
                (''_argument_deprecations'', PyRef 1),
                (''_parser'', PyObject ''CLICommandParser'' []),
                (''checked'', PyBool True)],
        trace := trace (sample_parsed [''vm'', ''create''] vm_create_ns vm_create_lists) @
          [Call_validator (PyFunc 1) vm_create_ns,
           Call_validator (PyFunc 2) (vm_create_ns @ [(''checked'', PyBool True)])]\<rparr>"

text \<open>
  The deprecations the sample run of \<open>vm create\<close> warns about, its state once they
  are collected, and its final state.
\<close>

definition vm_create_warnings :: "pyval list" where
  "vm_create_warnings =
     [deprecated ''argument'' ''--name'', deprecated ''command'' ''vm create'',
      PyObject ''ImplicitDeprecated''
        [(''object_type'', PyStr ''command''), (''target'', PyStr ''vm''),
         (''redirect'', PyNone), (''hide'', PyBool False)]]"

definition vm_create_collected :: run_state where
  "vm_create_collected =
     vm_create_validated
       \<lparr>data := data_setitem (init_data None) ''command'' (PyStr ''vm create''),
        store := [[PyFunc 1, PyFunc 2], vm_create_warnings],
        trace := trace vm_create_validated @ [Resolve_deprecate_info ''vm'']\<rparr>"

definition vm_create_final :: run_state where
  "vm_create_final =
     vm_create_collected
       \<lparr>data := \<lparr>default_factory = Some PyNone,
                  items = [(''command'', PyStr ''vm create''), (''query_active'', PyNone)]\<rparr>,
        trace := trace vm_create_collected @
          [Colorama_init,
           Print_stderr ''Deprecated --name'',
           Print_stderr ''Deprecated vm create'',
           Print_stderr ''ImplicitDeprecated vm'',
           Colorama_deinit,
           Call_handler vm_create [(''name'', PyStr ''box''), (''checked'', PyBool True)],
           Raise_event EVENT_INVOKER_TRANSFORM_RESULT
             (Event_data [(''result'',
                PyDict [(''name'', PyStr ''box''), (''checked'', PyBool True)])]),
           Raise_event EVENT_INVOKER_FILTER_RESULT
             (Event_data [(''result'', PyDict [(''a'', PyInt 1)])])]\<rparr>"

section \<open>Properties\<close>

lemma foldl_update_fresh:
  "distinct (map fst (d @ ps)) \<Longrightarrow> foldl (\<lambda>d (k, v). AList.update k v d) d ps = d @ ps"
proof (induction ps arbitrary: d)
  case Nil
  then show ?case by simp
next
  case (Cons p ps)
  obtain k v where p: "p = (k, v)" by (cases p)
  from Cons.prems have fresh: "k \<notin> fst ` set d" by (auto simp: p)
  have upd: "AList.update k v d = d @ [(k, v)]"
    using fresh by (induction d) auto
  from Cons.prems have "distinct (map fst ((d @ [(k, v)]) @ ps))" by (simp add: p)
  from Cons.IH [OF this] show ?case by (simp add: p upd)
qed

lemma dict_of_pairs_distinct: "distinct (map fst ps) \<Longrightarrow> dict_of_pairs ps = ps"
  using foldl_update_fresh [of "[]" ps] by (simp add: dict_of_pairs_def)

lemma distinct_fst_filter: "distinct (map fst ps) \<Longrightarrow> distinct (map fst (filter P ps))"
  by (induction ps) (auto simp: image_iff)

lemma delete_as_filter: "AList.delete k d = filter (\<lambda>(key, val). key \<noteq> k) d"
  by (induction d) auto

text \<open>
  C3. For a field mapping with distinct keys (a dict), the filtered parameter set is
  the mapping's entries, in their order and with their values, whose names neither
  start with an underscore nor are \<open>func\<close> or \<open>command\<close>; so a name is bound in it,
  to its original value, exactly when it is such a name. The result is a function of the
  mapping alone.
\<close>

theorem filter_params_correct:
  assumes "distinct (map fst args_dict)"
  shows "filter_params args_dict =
           filter (\<lambda>(key, val). \<not> startswith key ''_'' \<and> key \<noteq> ''func'' \<and> key \<noteq> ''command'')
             args_dict
         \<and> distinct (map fst (filter_params args_dict))
         \<and> map_of (filter_params args_dict) k =
             (if startswith k ''_'' \<or> k = ''func'' \<or> k = ''command'' then None
              else map_of args_dict k)"
proof -
  let ?P = "\<lambda>(key, val). \<not> startswith key ''_'' \<and> key \<noteq> ''func'' \<and> key \<noteq> ''command''"
  have d1: "distinct (map fst (filter (\<lambda>(key, val). \<not> startswith key ''_'') args_dict))"
    using assms by (rule distinct_fst_filter)
  have eq: "filter_params args_dict = filter ?P args_dict"
    unfolding filter_params_def Let_def pop_default_def
    by (simp add: dict_of_pairs_distinct [OF d1] delete_as_filter)
       (rule filter_cong, auto)
  have dist: "distinct (map fst (filter ?P args_dict))"
    using assms by (rule distinct_fst_filter)
  have look: "map_of (filter ?P args_dict) k =
      (if startswith k ''_'' \<or> k = ''func'' \<or> k = ''command'' then None else map_of args_dict k)"
    by (induction args_dict) auto
  show ?thesis using eq dist look by simp
qed

theorem filter_params_correct_witness:
  "filter_params [(''name'', PyStr ''x''), (''_parser'', PyObject ''Parser'' []),
      (''func'', PyFunc 0), (''command'', PyStr ''vm create''), (''size'', PyInt 3)]
     = [(''name'', PyStr ''x''), (''size'', PyInt 3)]
   \<and> map_of (filter_params [(''name'', PyStr ''x''), (''_parser'', PyObject ''Parser'' []),
      (''func'', PyFunc 0), (''command'', PyStr ''vm create''), (''size'', PyInt 3)]) ''size''
     = Some (PyInt 3)"
  using filter_params_correct [of "[(''name'', PyStr ''x''), (''_parser'', PyObject ''Parser'' []),
      (''func'', PyFunc 0), (''command'', PyStr ''vm create''), (''size'', PyInt 3)]" "''size''"]
  by (simp add: startswith_def)

subsection \<open>Sequencing\<close>

lemma and_then_succeed: "and_then (succeed x) f s = f x s"
  by (simp add: and_then_def succeed_def)

lemma and_then_modify: "and_then (modify g) f s = f () (g s)"
  by (simp add: and_then_def modify_def)

lemma and_then_gets: "and_then (gets g) f s = f (g s) s"
  by (simp add: and_then_def gets_def)

lemma and_then_raise: "and_then (raise e) f s = (Inl e, s)"
  by (simp add: and_then_def raise_def)

lemma and_then_emit: "and_then (emit a) f s = f () (s\<lparr>trace := trace s @ [a]\<rparr>)"
  by (simp add: and_then_def emit_def)

lemma and_then_Inr: "m s = (Inr x, s') \<Longrightarrow> and_then m f s = f x s'"
  by (simp add: and_then_def)

lemma and_then_Inl: "m s = (Inl e, s') \<Longrightarrow> and_then m f s = (Inl e, s')"
  by (simp add: and_then_def)

lemma and_then_Inr_elim:
  assumes "and_then m f s = (Inr y, s'')"
  obtains x s' where "m s = (Inr x, s')" and "f x s' = (Inr y, s'')"
  using assms by (auto simp: and_then_def split: prod.splits sum.splits)

subsection \<open>The run without arguments\<close>

lemma rudimentary_get_command_Nil: "rudimentary_get_command [] = ([], [])"
  by (simp add: rudimentary_get_command_def)

lemma load_stage_eq:
  "load_stage env args s =
     (Inr (load_command_table env args, fst (rudimentary_get_command args),
           snd (rudimentary_get_command args)),
      s\<lparr>argv := snd (rudimentary_get_command args),
        trace := trace s @
          [Raise_event EVENT_INVOKER_PRE_CMD_TBL_CREATE (Args args),
           Load_command_table args,
           Load_arguments (fst (rudimentary_get_command args)),
           Raise_event EVENT_INVOKER_POST_CMD_TBL_CREATE (Cmd_tbl (load_command_table env args)),
           Parser_load_command_table,
           Raise_event EVENT_INVOKER_CMD_TBL_LOADED (Parser (top_parser env))]\<rparr>)"
  by (simp add: load_stage_def and_then_emit and_then_modify Let_def succeed_def
      split: prod.splits)

text \<open>
  C7. A run on the empty argument list returns \<open>None\<close>, which is not an error. All it
  does is raise the three events of the command table, ask the loader for the table and
  for the arguments of the empty command name, register the table with the parser,
  enable autocompletion and show the welcome view: nothing is parsed, no validator and
  no handler is called, and the namespace, the lists and the invocation data stay as
  they were.
\<close>

theorem execute_empty:
  "execute env [] s =
     (Inr None,
      s\<lparr>argv := [],
        trace := trace s @
          [Raise_event EVENT_INVOKER_PRE_CMD_TBL_CREATE (Args []),
           Load_command_table [],
           Load_arguments [],
           Raise_event EVENT_INVOKER_POST_CMD_TBL_CREATE (Cmd_tbl (load_command_table env [])),
           Parser_load_command_table,
           Raise_event EVENT_INVOKER_CMD_TBL_LOADED (Parser (top_parser env)),
           Enable_autocomplete,
           Show_welcome]\<rparr>)"
  by (simp add: execute_def and_then_Inr [OF load_stage_eq] rudimentary_get_command_Nil
      show_welcome_def and_then_emit succeed_def)

subsection \<open>The search for an implicit deprecation\<close>

lemma ancestor_paths_Nil: "ancestor_paths [] = []"
  by (simp add: ancestor_paths_def)

lemma ancestor_paths_snoc:
  "ancestor_paths (xs @ [x]) = join '' '' (xs @ [x]) # ancestor_paths xs"
proof -
  have "tl (prefixes xs @ [xs @ [x]]) = tl (prefixes xs) @ [xs @ [x]]"
    by (cases "prefixes xs") auto
  then show ?thesis by (simp add: ancestor_paths_def)
qed

lemma ancestor_paths_eq_Nil: "ancestor_paths xs = [] \<longleftrightarrow> xs = []"
  by (cases xs rule: rev_cases) (simp_all add: ancestor_paths_Nil ancestor_paths_snoc)

lemma search_implicit_Nil: "search_implicit env [] info s = (Inr info, s)"
  by (subst search_implicit.simps) simp

lemma search_implicit_truthy:
  "truthy (store s) info \<Longrightarrow> search_implicit env path_comps info s = (Inr info, s)"
  by (subst search_implicit.simps) simp

lemma search_implicit_snoc:
  "\<not> truthy (store s) info \<Longrightarrow>
   search_implicit env (xs @ [x]) info s =
     search_implicit env xs (resolve_deprecate_info env (join '' '' (xs @ [x])))
       (s\<lparr>trace := trace s @ [Resolve_deprecate_info (join '' '' (xs @ [x]))]\<rparr>)"
  by (subst search_implicit.simps) simp

lemma search_implicit_eq:
  assumes "\<not> truthy (store s) info" and "comps \<noteq> []"
  shows "search_implicit env comps info s =
     (Inr (case find (\<lambda>p. truthy (store s) (resolve_deprecate_info env p)) (ancestor_paths comps) of
             Some p \<Rightarrow> resolve_deprecate_info env p
           | None \<Rightarrow> resolve_deprecate_info env (last (ancestor_paths comps))),
      s\<lparr>trace := trace s @ map Resolve_deprecate_info
         (takeWhile (\<lambda>p. \<not> truthy (store s) (resolve_deprecate_info env p)) (ancestor_paths comps) @
          (case find (\<lambda>p. truthy (store s) (resolve_deprecate_info env p)) (ancestor_paths comps) of
             Some p \<Rightarrow> [p] | None \<Rightarrow> []))\<rparr>)"
  using assms
proof (induction comps arbitrary: info s rule: rev_induct)
  case Nil
  then show ?case by simp
next
  case (snoc x xs)
  let ?j = "join '' '' (xs @ [x])"
  let ?s1 = "s\<lparr>trace := trace s @ [Resolve_deprecate_info ?j]\<rparr>"
  have step: "search_implicit env (xs @ [x]) info s =
      search_implicit env xs (resolve_deprecate_info env ?j) ?s1"
    using snoc.prems(1) by (rule search_implicit_snoc)
  have paths: "ancestor_paths (xs @ [x]) = ?j # ancestor_paths xs"
    by (rule ancestor_paths_snoc)
  show ?case
  proof (cases "truthy (store s) (resolve_deprecate_info env ?j)")
    case True
    then have "search_implicit env xs (resolve_deprecate_info env ?j) ?s1 =
        (Inr (resolve_deprecate_info env ?j), ?s1)"
      by (intro search_implicit_truthy) simp
    then show ?thesis unfolding step paths using True by simp
  next
    case False
    show ?thesis
    proof (cases "xs = []")
      case True
      have "search_implicit env [] (resolve_deprecate_info env ?j) ?s1 =
        (Inr (resolve_deprecate_info env ?j), ?s1)"
        by (rule search_implicit_Nil)
      then show ?thesis unfolding step paths using False True
        by (simp add: ancestor_paths_Nil)
    next
      case nonempty: False
      have f: "\<not> truthy (store ?s1) (resolve_deprecate_info env ?j)" using False by simp
      have ne: "ancestor_paths xs \<noteq> []" using nonempty by (simp add: ancestor_paths_eq_Nil)
      show ?thesis unfolding step paths snoc.IH [OF f nonempty] using False ne
        by (simp split: option.splits)
    qed
  qed
qed

lemma lift_Inr: "lift (Inr x) s = (Inr x, s)"
  by (simp add: lift_def)

lemma lift_Inl: "lift (Inl e) s = (Inl e, s)"
  by (simp add: lift_def)

lemma find_hit: "find P ps = Some p \<Longrightarrow> P p"
  by (auto simp: find_Some_iff)

lemma find_miss_last: "find P ps = None \<Longrightarrow> ps \<noteq> [] \<Longrightarrow> \<not> P (last ps)"
  by (auto simp: find_None_iff)

lemma find_miss_takeWhile: "find P ps = None \<Longrightarrow> takeWhile (\<lambda>p. \<not> P p) ps = ps"
  by (auto simp: find_None_iff)

lemma implicit_deprecation_search:
  "implicit_deprecation env (PyStr name) s =
     (case find (\<lambda>p. truthy (store s) (resolve_deprecate_info env p))
             (ancestor_paths (butlast (split name))) of
        None \<Rightarrow>
          (Inr None,
           s\<lparr>trace := trace s @
              map Resolve_deprecate_info (ancestor_paths (butlast (split name)))\<rparr>)
      | Some p \<Rightarrow>
          ((case implicit_deprecated (resolve_deprecate_info env p) of
              Inl e \<Rightarrow> Inl e
            | Inr d \<Rightarrow> Inr (Some d)),
           s\<lparr>trace := trace s @
              map Resolve_deprecate_info
                (takeWhile (\<lambda>q. \<not> truthy (store s) (resolve_deprecate_info env q))
                   (ancestor_paths (butlast (split name))) @ [p])\<rparr>))"
proof -
  let ?comps = "butlast (split name)"
  let ?P = "\<lambda>p. truthy (store s) (resolve_deprecate_info env p)"
  have unfold: "implicit_deprecation env (PyStr name) s =
      and_then (search_implicit env ?comps PyNone)
        (\<lambda>info s. if truthy (store s) info then
            and_then (lift (implicit_deprecated info)) (\<lambda>d. succeed (Some d)) s
          else succeed None s) s"
    by (simp add: implicit_deprecation_def str_split_def and_then_def lift_def)
  show ?thesis
  proof (cases "?comps = []")
    case True
    then show ?thesis unfolding unfold
      by (simp add: and_then_def search_implicit_Nil ancestor_paths_Nil succeed_def)
  next
    case False
    have falsy: "\<not> truthy (store s) PyNone" by simp
    note search = search_implicit_eq [OF falsy False, of env]
    have ne: "ancestor_paths ?comps \<noteq> []" using False by (simp add: ancestor_paths_eq_Nil)
    show ?thesis
    proof (cases "find ?P (ancestor_paths ?comps)")
      case None
      have tw: "takeWhile (\<lambda>p. \<not> ?P p) (ancestor_paths ?comps) = ancestor_paths ?comps"
        using None by (rule find_miss_takeWhile)
      have lastf: "\<not> ?P (last (ancestor_paths ?comps))"
        using None ne by (rule find_miss_last)
      show ?thesis unfolding unfold
        by (simp add: and_then_def search None succeed_def tw lastf)
    next
      case (Some p)
      from find_hit [OF Some]
      show ?thesis unfolding unfold
        by (cases "implicit_deprecated (resolve_deprecate_info env p)")
           (simp_all add: and_then_def search Some succeed_def lift_def)
    qed
  qed
qed

lemma map_of_delete_alist: "map_of (AList.delete k d) k' = (if k' = k then None else map_of d k')"
  by (simp add: AList.delete_conv')

lemma implicit_deprecated_object:
  assumes "map_of d ''_get_tag'' \<noteq> None" and "map_of d ''_get_message'' \<noteq> None"
  shows "implicit_deprecated (PyObject c d) =
     Inr (PyObject ''ImplicitDeprecated''
       (AList.delete ''_get_message'' (AList.delete ''_get_tag''
          (AList.update ''object_type'' (PyStr ''command'') d))))"
  using assms
  by (simp add: implicit_deprecated_def dict_copy_def dict_delitem_def Let_def
      AList.update_conv' map_of_delete_alist)

lemma implicit_kwargs_lookup:
  "map_of (AList.delete ''_get_message'' (AList.delete ''_get_tag''
          (AList.update ''object_type'' (PyStr ''command'') d))) k =
     (if k = ''_get_tag'' \<or> k = ''_get_message'' then None
      else if k = ''object_type'' then Some (PyStr ''command'')
      else map_of d k)"
  by (simp add: map_of_delete_alist AList.update_conv')

text \<open>
  C1. The resolver takes the tokens of the command name without the last one and looks
  up the joined path of each ancestor group, the deepest first, which is the whole
  remaining path; on a miss it goes on with the path one token shorter. It stops at the
  first path that has a deprecation, so the deepest deprecated ancestor wins, and it has
  looked up exactly the paths down to that one. With no deprecated ancestor it has looked
  up every ancestor path and gives \<open>None\<close>. From a found descriptor that holds the
  two accessor fields it builds an \<open>ImplicitDeprecated\<close> object from the descriptor's
  fields, with \<open>object_type\<close> set to \<open>command\<close> and without \<open>_get_tag\<close> and
  \<open>_get_message\<close>.
\<close>

theorem implicit_deprecation_correct:
  "implicit_deprecation env (PyStr name) s =
     (case find (\<lambda>p. truthy (store s) (resolve_deprecate_info env p))
             (ancestor_paths (butlast (split name))) of
        None \<Rightarrow>
          (Inr None,
           s\<lparr>trace := trace s @
              map Resolve_deprecate_info (ancestor_paths (butlast (split name)))\<rparr>)
      | Some p \<Rightarrow>
          ((case implicit_deprecated (resolve_deprecate_info env p) of
              Inl e \<Rightarrow> Inl e
            | Inr d \<Rightarrow> Inr (Some d)),
           s\<lparr>trace := trace s @
              map Resolve_deprecate_info
                (takeWhile (\<lambda>q. \<not> truthy (store s) (resolve_deprecate_info env q))
                   (ancestor_paths (butlast (split name))) @ [p])\<rparr>))
   \<and> (map_of d ''_get_tag'' \<noteq> None \<and> map_of d ''_get_message'' \<noteq> None \<longrightarrow>
        (\<exists>kwargs. implicit_deprecated (PyObject c d) = Inr (PyObject ''ImplicitDeprecated'' kwargs)
           \<and> map_of kwargs k =
               (if k = ''_get_tag'' \<or> k = ''_get_message'' then None
                else if k = ''object_type'' then Some (PyStr ''command'')
                else map_of d k)))"
proof (intro conjI impI)
  show "implicit_deprecation env (PyStr name) s =
     (case find (\<lambda>p. truthy (store s) (resolve_deprecate_info env p))
             (ancestor_paths (butlast (split name))) of
        None \<Rightarrow>
          (Inr None,
           s\<lparr>trace := trace s @
              map Resolve_deprecate_info (ancestor_paths (butlast (split name)))\<rparr>)
      | Some p \<Rightarrow>
          ((case implicit_deprecated (resolve_deprecate_info env p) of
              Inl e \<Rightarrow> Inl e
            | Inr d \<Rightarrow> Inr (Some d)),
           s\<lparr>trace := trace s @
              map Resolve_deprecate_info
                (takeWhile (\<lambda>q. \<not> truthy (store s) (resolve_deprecate_info env q))
                   (ancestor_paths (butlast (split name))) @ [p])\<rparr>))"
    by (rule implicit_deprecation_search)
next
  assume keys: "map_of d ''_get_tag'' \<noteq> None \<and> map_of d ''_get_message'' \<noteq> None"
  then have "implicit_deprecated (PyObject c d) =
     Inr (PyObject ''ImplicitDeprecated''
       (AList.delete ''_get_message'' (AList.delete ''_get_tag''
          (AList.update ''object_type'' (PyStr ''command'') d))))"
    by (intro implicit_deprecated_object) simp_all
  with implicit_kwargs_lookup [of d k]
  show "\<exists>kwargs. implicit_deprecated (PyObject c d) = Inr (PyObject ''ImplicitDeprecated'' kwargs)
           \<and> map_of kwargs k =
               (if k = ''_get_tag'' \<or> k = ''_get_message'' then None
                else if k = ''object_type'' then Some (PyStr ''command'')
                else map_of d k)"
    by blast
qed


lemma split_subnet_list:
  "split ''net vnet subnet list'' = [''net'', ''vnet'', ''subnet'', ''list'']"
  by code_simp

lemma ancestor_paths_subnet:
  "ancestor_paths [''net'', ''vnet'', ''subnet''] = [''net vnet subnet'', ''net vnet'', ''net'']"
  by (simp add: ancestor_paths_def)

theorem implicit_deprecation_correct_witness:
  "implicit_deprecation sample_env (PyStr ''net vnet subnet list'') (init_state None) =
     (Inr (Some (PyObject ''ImplicitDeprecated''
        [(''object_type'', PyStr ''command''), (''target'', PyStr ''net vnet''),
         (''redirect'', PyNone), (''hide'', PyBool False)])),
      (init_state None)\<lparr>trace :=
         [Resolve_deprecate_info ''net vnet subnet'', Resolve_deprecate_info ''net vnet'']\<rparr>)
   \<and> map_of [(''object_type'', PyStr ''command group''), (''target'', PyStr ''net vnet''),
        (''redirect'', PyNone), (''hide'', PyBool False),
        (''_get_tag'', PyFunc 10), (''_get_message'', PyFunc 11)] ''_get_tag'' \<noteq> None
   \<and> map_of [(''object_type'', PyStr ''command group''), (''target'', PyStr ''net vnet''),
        (''redirect'', PyNone), (''hide'', PyBool False),
        (''_get_tag'', PyFunc 10), (''_get_message'', PyFunc 11)] ''_get_message'' \<noteq> None
   \<and> implicit_deprecated (deprecated ''command group'' ''net vnet'') =
       Inr (PyObject ''ImplicitDeprecated''
        [(''object_type'', PyStr ''command''), (''target'', PyStr ''net vnet''),
         (''redirect'', PyNone), (''hide'', PyBool False)])"
  using implicit_deprecation_correct [of sample_env "''net vnet subnet list''" "init_state None"
     "[(''object_type'', PyStr ''command group''), (''target'', PyStr ''net vnet''),
      (''redirect'', PyNone), (''hide'', PyBool False),
      (''_get_tag'', PyFunc 10), (''_get_message'', PyFunc 11)]" "''Deprecated''" "''object_type''"]
  by (simp add: split_subnet_list ancestor_paths_subnet sample_env_def deprecated_def
      init_state_def implicit_deprecated_def dict_copy_def dict_delitem_def)

subsection \<open>The validation chain\<close>

lemma call_validator_pass:
  "callable v \<Longrightarrow> fst (run_validator env v (ns s)) = None \<Longrightarrow>
   call_validator env v s =
     (Inr (), s\<lparr>ns := snd (run_validator env v (ns s)),
               trace := trace s @ [Call_validator v (ns s)]\<rparr>)"
  by (cases "run_validator env v (ns s)") (simp add: call_validator_def)

lemma call_validator_fail:
  "callable v \<Longrightarrow> run_validator env v (ns s) = (Some e, d') \<Longrightarrow>
   call_validator env v s =
     (Inl e, s\<lparr>ns := d', trace := trace s @ [Call_validator v (ns s)]\<rparr>)"
  by (simp add: call_validator_def)

lemma run_validators_pass:
  "validators_pass env vs (ns s) \<Longrightarrow>
   run_validators env vs s =
     (Inr (), s\<lparr>ns := ns_after env vs (ns s),
               trace := trace s @ call_actions (validator_calls env vs (ns s))\<rparr>)"
proof (induction vs arbitrary: s)
  case Nil
  then show ?case by (simp add: succeed_def call_actions_def)
next
  case (Cons v vs)
  let ?s1 = "s\<lparr>ns := snd (run_validator env v (ns s)),
               trace := trace s @ [Call_validator v (ns s)]\<rparr>"
  from Cons.prems have c: "call_validator env v s = (Inr (), ?s1)"
    by (intro call_validator_pass) simp_all
  from Cons.prems have "validators_pass env vs (ns ?s1)" by simp
  from Cons.IH [OF this] show ?case
    by (simp add: and_then_def c call_actions_def)
qed

lemma run_validators_append:
  "run_validators env (pre @ post) = and_then (run_validators env pre) (\<lambda>_. run_validators env post)"
proof (induction pre)
  case Nil
  show ?case by (rule ext) (simp add: and_then_def succeed_def)
next
  case (Cons v pre)
  show ?case
    by (rule ext) (simp add: Cons.IH and_then_def split: prod.splits sum.splits)
qed

lemma run_validators_fail:
  assumes "validators_pass env pre (ns s)" and "callable v"
    and "run_validator env v (ns_after env pre (ns s)) = (Some e, d')"
  shows "run_validators env (pre @ v # post) s =
     (Inl e, s\<lparr>ns := d',
               trace := trace s @ call_actions (validator_calls env pre (ns s)) @
                 [Call_validator v (ns_after env pre (ns s))]\<rparr>)"
proof -
  let ?s1 = "s\<lparr>ns := ns_after env pre (ns s), trace := trace s @ call_actions (validator_calls env pre (ns s))\<rparr>"
  have pre: "run_validators env pre s = (Inr (), ?s1)"
    using assms(1) by (rule run_validators_pass)
  have "call_validator env v ?s1 =
      (Inl e, ?s1\<lparr>ns := d', trace := trace ?s1 @ [Call_validator v (ns ?s1)]\<rparr>)"
    using assms(2,3) by (intro call_validator_fail) simp_all
  then show ?thesis
    by (simp add: run_validators_append and_then_def pre call_actions_def)
qed


lemma delete_absent: "map_of d k = None \<Longrightarrow> AList.delete k d = d"
  by (induction d) (auto split: if_splits)

lemma delattr_quiet_eq: "delattr_quiet k s = (Inr (), s\<lparr>ns := AList.delete k (ns s)\<rparr>)"
  by (simp add: delattr_quiet_def delete_absent)

lemma map_fst_validator_calls: "map fst (validator_calls env vs d) = vs"
  by (induction vs arbitrary: d) simp_all

lemma validation_cmd_pass:
  assumes "truthy (store s) (command_validator s)" and "callable (command_validator s)"
    and "run_validator env (command_validator s) (ns s) = (None, d')"
  shows "validation env s =
     (Inr (), s\<lparr>ns := AList.delete ''_command_validator'' d',
               trace := trace s @ [Call_validator (command_validator s) (ns s)]\<rparr>)"
proof -
  let ?cv = "getattr_default (ns s) ''_command_validator'' PyNone"
  from assms have t: "truthy (store s) ?cv" and c: "callable ?cv"
    and r: "run_validator env ?cv (ns s) = (None, d')"
    by (simp_all add: command_validator_def)
  have call: "call_validator env ?cv s =
      (Inr (), s\<lparr>ns := d', trace := trace s @ [Call_validator ?cv (ns s)]\<rparr>)"
    using c r by (simp add: call_validator_def)
  have "validate_cmd_level env ?cv s =
      (Inr (), s\<lparr>ns := AList.delete ''_command_validator'' d',
               trace := trace s @ [Call_validator ?cv (ns s)]\<rparr>)"
    using t by (simp add: validate_cmd_level_def and_then_def call delattr_quiet_eq)
  then show ?thesis using t
    by (simp add: validation_def Let_def command_validator_def)
qed

lemma validation_cmd_calls:
  assumes "truthy (store s) (command_validator s)"
  shows "filter is_validator_call (trace (snd (validation env s))) =
     filter is_validator_call (trace s) @
       (if callable (command_validator s) then [Call_validator (command_validator s) (ns s)]
        else [])"
proof -
  let ?cv = "getattr_default (ns s) ''_command_validator'' PyNone"
  from assms have t: "truthy (store s) ?cv" by (simp add: command_validator_def)
  show ?thesis
  proof (cases "callable ?cv")
    case False
    then have "validate_cmd_level env ?cv s = (Inl (not_callable ?cv), s)"
      using t by (simp add: validate_cmd_level_def and_then_def call_validator_def)
    then show ?thesis using t False
      by (simp add: validation_def Let_def command_validator_def validation_error_def
          and_then_def emit_def raise_def)
  next
    case True
    obtain r d' where r: "run_validator env ?cv (ns s) = (r, d')"
      by (cases "run_validator env ?cv (ns s)")
    show ?thesis
    proof (cases r)
      case None
      with validation_cmd_pass [of s env d'] t True r show ?thesis
        by (simp add: command_validator_def)
    next
      case (Some e)
      then have "validate_cmd_level env ?cv s =
          (Inl e, s\<lparr>ns := d', trace := trace s @ [Call_validator ?cv (ns s)]\<rparr>)"
        using t True r by (simp add: validate_cmd_level_def and_then_def call_validator_def)
      then show ?thesis using t True
        by (simp add: validation_def Let_def command_validator_def validation_error_def
            and_then_def emit_def raise_def)
    qed
  qed
qed

lemma validation_arg_pass:
  assumes "\<not> truthy (store s) (command_validator s)" and "argument_validators s = Inr vs"
    and "validators_pass env vs (ns s)"
  shows "validation env s =
     (Inr (), s\<lparr>ns := AList.delete ''_argument_validators'' (ns_after env vs (ns s)),
               trace := trace s @ call_actions (validator_calls env vs (ns s))\<rparr>)"
proof -
  have fetch: "(case map_of (ns s) ''_argument_validators'' of
            None \<Rightarrow> succeed [] s
          | Some v \<Rightarrow> lift (py_iter (store s) v) s) = (Inr vs, s)"
    using assms(2)
    by (auto simp: argument_validators_def succeed_def lift_def split: option.splits)
  have "validate_arg_level env s =
     (Inr (), s\<lparr>ns := AList.delete ''_argument_validators'' (ns_after env vs (ns s)),
               trace := trace s @ call_actions (validator_calls env vs (ns s))\<rparr>)"
    by (simp add: validate_arg_level_def and_then_def fetch
        run_validators_pass [OF assms(3)] delattr_quiet_eq)
  then show ?thesis using assms(1)
    by (simp add: validation_def Let_def command_validator_def)
qed

text \<open>
  C4. When a command validator is attached (the attribute holds a true value) and
  returns, the chain calls it once, on the whole namespace, and then removes the
  attribute \<open>_command_validator\<close>; whatever the command validator does, it is the only
  validator called in that pass, so no argument validator runs. Otherwise, when the
  argument validators all return, the chain calls each of them in the order of the
  attached list, each on the whole namespace as the one before left it, and then removes
  the attribute \<open>_argument_validators\<close>.
\<close>

theorem validation_chain_exclusive:
  "(truthy (store s) (command_validator s) \<and> callable (command_validator s)
      \<and> run_validator env (command_validator s) (ns s) = (None, d') \<longrightarrow>
      validation env s =
        (Inr (), s\<lparr>ns := AList.delete ''_command_validator'' d',
                  trace := trace s @ [Call_validator (command_validator s) (ns s)]\<rparr>))
   \<and> (truthy (store s) (command_validator s) \<longrightarrow>
      filter is_validator_call (trace (snd (validation env s))) =
        filter is_validator_call (trace s) @
          (if callable (command_validator s) then [Call_validator (command_validator s) (ns s)]
           else []))
   \<and> (\<not> truthy (store s) (command_validator s) \<and> argument_validators s = Inr vs
      \<and> validators_pass env vs (ns s) \<longrightarrow>
      validation env s =
        (Inr (), s\<lparr>ns := AList.delete ''_argument_validators'' (ns_after env vs (ns s)),
                  trace := trace s @ call_actions (validator_calls env vs (ns s))\<rparr>)
      \<and> map fst (validator_calls env vs (ns s)) = vs)"
  using validation_cmd_pass [of s env d'] validation_cmd_calls [of s env]
    validation_arg_pass [of s vs env] map_fst_validator_calls [of env vs "ns s"]
  by blast

subsection \<open>Validator errors\<close>

lemma execute_from_validation:
  assumes "reaches_validation env args s0 s"
  shows "execute env args s0 =
     and_then (validation env) (\<lambda>_. after_validation env (load_command_table env args)) s"
proof -
  let ?args' = "snd (rudimentary_get_command args)"
  let ?s1 = "s0\<lparr>argv := ?args',
        trace := trace s0 @
          [Raise_event EVENT_INVOKER_PRE_CMD_TBL_CREATE (Args args),
           Load_command_table args,
           Load_arguments (fst (rudimentary_get_command args)),
           Raise_event EVENT_INVOKER_POST_CMD_TBL_CREATE (Cmd_tbl (load_command_table env args)),
           Parser_load_command_table,
           Raise_event EVENT_INVOKER_CMD_TBL_LOADED (Parser (top_parser env))]\<rparr>"
  from assms have ne: "?args' \<noteq> []"
    and parse: "parse_stage env (load_command_table env args) (fst (rudimentary_get_command args))
        (normalize_help ?args') (?s1\<lparr>argv := normalize_help ?args'\<rparr>) = (Inr (), s)"
    by (simp_all add: reaches_validation_def load_stage_eq case_prod_beta)
  have "execute env args s0 =
      run_command env (load_command_table env args) (fst (rudimentary_get_command args))
        (normalize_help ?args') (?s1\<lparr>argv := normalize_help ?args'\<rparr>)"
    using ne by (simp add: execute_def and_then_def load_stage_eq modify_def case_prod_beta)
  also have "\<dots> = and_then (validation env)
      (\<lambda>_. after_validation env (load_command_table env args)) s"
    using parse unfolding run_command_def by (subst and_then_def) simp
  finally show ?thesis .
qed

lemma execute_validation_failure:
  "reaches_validation env args s0 s \<Longrightarrow> validation env s = (Inl e, s') \<Longrightarrow>
   execute env args s0 = (Inl e, s')"
  by (simp add: execute_from_validation and_then_def)

lemma validation_cmd_fail:
  assumes "truthy (store s) (command_validator s)" and "callable (command_validator s)"
    and "run_validator env (command_validator s) (ns s) = (Some e, d')"
    and "s' = s\<lparr>ns := d', trace := trace s @ [Call_validator (command_validator s) (ns s)]\<rparr>"
  shows "validation env s =
     (if is_CLIError e then (Inl e, s')
      else if is_Exception e then
        (Inl (Exn ValidationError (str_exn e)),
         s'\<lparr>trace := trace s' @
            [Validation_error (getattr_default d' ''_parser'' (top_parser env)) (str_exn e)]\<rparr>)
      else (Inl e, s'))"
proof -
  let ?cv = "getattr_default (ns s) ''_command_validator'' PyNone"
  from assms have t: "truthy (store s) ?cv" and c: "callable ?cv"
    and r: "run_validator env ?cv (ns s) = (Some e, d')"
    and s': "s' = s\<lparr>ns := d', trace := trace s @ [Call_validator ?cv (ns s)]\<rparr>"
    by (simp_all add: command_validator_def)
  have "validate_cmd_level env ?cv s = (Inl e, s')"
    using t c r by (simp add: validate_cmd_level_def and_then_def call_validator_def s')
  then show ?thesis using t
    by (simp add: validation_def Let_def validation_error_def and_then_def emit_def raise_def s')
qed

lemma validation_arg_fail:
  assumes "\<not> truthy (store s) (command_validator s)"
    and "argument_validators s = Inr (pre @ v # post)"
    and "validators_pass env pre (ns s)" and "callable v"
    and "run_validator env v (ns_after env pre (ns s)) = (Some e, d')"
    and "s' = s\<lparr>ns := d', trace := trace s @ call_actions (validator_calls env pre (ns s)) @
                 [Call_validator v (ns_after env pre (ns s))]\<rparr>"
  shows "validation env s =
     (if is_CLIError e then (Inl e, s')
      else if is_Exception e then
        (Inl (Exn ValidationError (str_exn e)),
         s'\<lparr>trace := trace s' @
            [Validation_error (getattr_default d' ''_parser'' (top_parser env)) (str_exn e)]\<rparr>)
      else (Inl e, s'))"
proof -
  have fetch: "(case map_of (ns s) ''_argument_validators'' of
            None \<Rightarrow> succeed [] s
          | Some v \<Rightarrow> lift (py_iter (store s) v) s) = (Inr (pre @ v # post), s)"
    using assms(2)
    by (auto simp: argument_validators_def succeed_def lift_def split: option.splits)
  have "validate_arg_level env s = (Inl e, s')"
    by (simp add: validate_arg_level_def and_then_def fetch
        run_validators_fail [OF assms(3,4,5)] assms(6))
  then show ?thesis using assms(1)
    by (simp add: validation_def Let_def command_validator_def validation_error_def
        and_then_def emit_def raise_def assms(6))
qed

text \<open>
  C5, as the code has it. Let the run have reached the validation chain, and let a
  validator of the chain raise: the command validator, or an argument validator after
  those before it in the list have returned. If the exception is a \<open>CLIError\<close>, that
  exception comes out of \<^verbatim>\<open>execute\<close> as it is. Any other exception deriving from
  \<^verbatim>\<open>Exception\<close> is reported with its message to the parser in the attribute
  \<open>_parser\<close> of the namespace, or to the top-level parser when there is no such
  attribute, and \<^verbatim>\<open>execute\<close> fails with a validation error that carries that message.
  An exception deriving from \<^verbatim>\<open>BaseException\<close> only, such as \<^verbatim>\<open>SystemExit\<close> or
  \<^verbatim>\<open>KeyboardInterrupt\<close>, is not caught: it comes out of \<^verbatim>\<open>execute\<close> as it is. In each
  case no further validator and no handler is called.
\<close>

theorem validator_error_conversion:
  assumes "reaches_validation env args s0 s"
    and "(truthy (store s) (command_validator s) \<and> pre = [] \<and> v = command_validator s)
       \<or> (\<not> truthy (store s) (command_validator s)
           \<and> argument_validators s = Inr (pre @ v # post) \<and> validators_pass env pre (ns s))"
    and "callable v"
    and "run_validator env v (ns_after env pre (ns s)) = (Some e, d')"
    and "s' = s\<lparr>ns := d', trace := trace s @ call_actions (validator_calls env pre (ns s)) @
                 [Call_validator v (ns_after env pre (ns s))]\<rparr>"
  shows "execute env args s0 =
     (if is_CLIError e then (Inl e, s')
      else if is_Exception e then
        (Inl (Exn ValidationError (str_exn e)),
         s'\<lparr>trace := trace s' @
            [Validation_error (getattr_default d' ''_parser'' (top_parser env)) (str_exn e)]\<rparr>)
      else (Inl e, s'))"
proof -
  have v: "validation env s =
     (if is_CLIError e then (Inl e, s')
      else if is_Exception e then
        (Inl (Exn ValidationError (str_exn e)),
         s'\<lparr>trace := trace s' @
            [Validation_error (getattr_default d' ''_parser'' (top_parser env)) (str_exn e)]\<rparr>)
      else (Inl e, s'))"
    using assms(2)
  proof
    assume cmd: "truthy (store s) (command_validator s) \<and> pre = [] \<and> v = command_validator s"
    with assms(3,4,5) show ?thesis
      by (intro validation_cmd_fail) (simp_all add: call_actions_def)
  next
    assume arg: "\<not> truthy (store s) (command_validator s)
           \<and> argument_validators s = Inr (pre @ v # post) \<and> validators_pass env pre (ns s)"
    with assms(3,4,5) show ?thesis
      by (intro validation_arg_fail) simp_all
  qed
  show ?thesis
    by (cases "is_CLIError e"; cases "is_Exception e")
       (simp_all add: execute_validation_failure [OF assms(1)] v)
qed

lemma rgc_vm_show: "rudimentary_get_command [''vm'', ''show''] = (''vm show'', [''vm'', ''show''])"
  by code_simp

lemma rgc_vm_delete: "rudimentary_get_command [''vm'', ''delete''] = (''vm delete'', [''vm'', ''delete''])"
  by code_simp

lemma nh_vm: "normalize_help (''vm'' # rest) = ''vm'' # rest"
  by (simp add: normalize_help_def lower_def lower_char_def)

lemma reaches_vm_show:
  "reaches_validation sample_env [''vm'', ''show''] (init_state None)
     (sample_parsed [''vm'', ''show''] vm_show_ns vm_show_lists)"
  by (simp add: reaches_validation_def load_stage_eq rgc_vm_show nh_vm parse_stage_def
      and_then_def emit_def getattr_def sample_env_def sample_parsed_def init_state_def
      vm_show_ns_def getattr_default_def)

lemma reaches_vm_delete:
  "reaches_validation sample_env [''vm'', ''delete''] (init_state None)
     (sample_parsed [''vm'', ''delete''] vm_delete_ns vm_delete_lists)"
  by (simp add: reaches_validation_def load_stage_eq rgc_vm_delete nh_vm parse_stage_def
      and_then_def emit_def getattr_def sample_env_def sample_parsed_def init_state_def
      vm_delete_ns_def getattr_default_def)

theorem validator_error_conversion_witness:
  "reaches_validation sample_env [''vm'', ''show''] (init_state None)
     (sample_parsed [''vm'', ''show''] vm_show_ns vm_show_lists)
   \<and> execute sample_env [''vm'', ''show''] (init_state None) =
       (Inl (Exn CLIError ''name is taken''),
        (sample_parsed [''vm'', ''show''] vm_show_ns vm_show_lists)
          \<lparr>trace := trace (sample_parsed [''vm'', ''show''] vm_show_ns vm_show_lists) @
             [Call_validator (PyFunc 3) vm_show_ns]\<rparr>)
   \<and> reaches_validation sample_env [''vm'', ''delete''] (init_state None)
     (sample_parsed [''vm'', ''delete''] vm_delete_ns vm_delete_lists)
   \<and> execute sample_env [''vm'', ''delete''] (init_state None) =
       (Inl (Exn ValidationError ''boom''),
        (sample_parsed [''vm'', ''delete''] vm_delete_ns vm_delete_lists)
          \<lparr>ns := vm_delete_ns @ [(''checked'', PyBool True)],
           trace := trace (sample_parsed [''vm'', ''delete''] vm_delete_ns vm_delete_lists) @
             [Call_validator (PyFunc 1) vm_delete_ns,
              Call_validator (PyFunc 4) (vm_delete_ns @ [(''checked'', PyBool True)]),
              Validation_error (PyObject ''CLICommandParser'' [(''prog'', PyStr ''sample vm delete'')])
                ''boom'']\<rparr>)"
  using
    validator_error_conversion [OF reaches_vm_show, of "[]" "PyFunc 3" "[]"
      "Exn CLIError ''name is taken''" vm_show_ns
      "(sample_parsed [''vm'', ''show''] vm_show_ns vm_show_lists)
          \<lparr>ns := vm_show_ns, trace := trace (sample_parsed [''vm'', ''show''] vm_show_ns vm_show_lists) @
             call_actions (validator_calls sample_env [] (ns (sample_parsed [''vm'', ''show''] vm_show_ns vm_show_lists))) @
             [Call_validator (PyFunc 3) (ns_after sample_env [] (ns (sample_parsed [''vm'', ''show''] vm_show_ns vm_show_lists)))]\<rparr>"]
    validator_error_conversion [OF reaches_vm_delete, of "[PyFunc 1]" "PyFunc 4" "[PyFunc 3]"
      "Exn OtherException ''boom''" "vm_delete_ns @ [(''checked'', PyBool True)]"
      "(sample_parsed [''vm'', ''delete''] vm_delete_ns vm_delete_lists)
          \<lparr>ns := vm_delete_ns @ [(''checked'', PyBool True)],
           trace := trace (sample_parsed [''vm'', ''delete''] vm_delete_ns vm_delete_lists) @
             call_actions (validator_calls sample_env [PyFunc 1] (ns (sample_parsed [''vm'', ''delete''] vm_delete_ns vm_delete_lists))) @
             [Call_validator (PyFunc 4) (ns_after sample_env [PyFunc 1] (ns (sample_parsed [''vm'', ''delete''] vm_delete_ns vm_delete_lists)))]\<rparr>"]
    reaches_vm_show reaches_vm_delete
  by (simp add: sample_parsed_def command_validator_def argument_validators_def py_iter_def
      heap_get_def getattr_default_def vm_show_ns_def vm_show_lists_def vm_delete_ns_def
      vm_delete_lists_def sample_env_def sample_validator_def call_actions_def)

text \<open>
  The sample run of \<open>vm stop\<close>: its command validator raises \<^verbatim>\<open>SystemExit\<close>, which is
  not a \<open>CLIError\<close>, and the run ends with that very exception; no validation error
  is reported to a parser.
\<close>

theorem validator_exit_not_converted:
  "\<not> is_CLIError (Exn SystemExit ''2'')
   \<and> run_validator sample_env (PyFunc 5) vm_stop_ns = (Some (Exn SystemExit ''2''), vm_stop_ns)
   \<and> execute sample_env [''vm'', ''stop''] (init_state None) =
       (Inl (Exn SystemExit ''2''),
        (sample_parsed [''vm'', ''stop''] vm_stop_ns [])
          \<lparr>trace := trace (sample_parsed [''vm'', ''stop''] vm_stop_ns []) @
             [Call_validator (PyFunc 5) vm_stop_ns]\<rparr>)"
  by code_simp

subsection \<open>The validation chain on the sample\<close>

theorem validation_chain_exclusive_witness:
  "truthy vm_show_lists (command_validator (sample_parsed [''vm'', ''list''] vm_list_ns vm_show_lists))
   \<and> argument_validators (sample_parsed [''vm'', ''list''] vm_list_ns vm_show_lists) = Inr [PyFunc 4]
   \<and> validation sample_env (sample_parsed [''vm'', ''list''] vm_list_ns vm_show_lists) =
       (Inr (),
        (sample_parsed [''vm'', ''list''] vm_list_ns vm_show_lists)
          \<lparr>ns := [(''name'', PyStr ''box''), (''func'', vm_create),
                   (''command'', PyStr ''vm list''), (''_argument_validators'', PyRef 0),
                   (''checked'', PyBool True)],
           trace := trace (sample_parsed [''vm'', ''list''] vm_list_ns vm_show_lists) @
             [Call_validator (PyFunc 1) vm_list_ns]\<rparr>)
   \<and> \<not> truthy vm_create_lists
         (command_validator (sample_parsed [''vm'', ''create''] vm_create_ns vm_create_lists))
   \<and> argument_validators (sample_parsed [''vm'', ''create''] vm_create_ns vm_create_lists) =
       Inr [PyFunc 1, PyFunc 2]
   \<and> validation sample_env (sample_parsed [''vm'', ''create''] vm_create_ns vm_create_lists) =
       (Inr (),
        (sample_parsed [''vm'', ''create''] vm_create_ns vm_create_lists)
          \<lparr>ns := [(''name'', PyStr ''box''), (''func'', vm_create),
                   (''command'', PyStr ''vm create''), (''_command_validator'', PyNone),
                   (''_argument_deprecations'', PyRef 1),
                   (''_parser'', PyObject ''CLICommandParser'' []),
                   (''checked'', PyBool True)],
           trace := trace (sample_parsed [''vm'', ''create''] vm_create_ns vm_create_lists) @
             [Call_validator (PyFunc 1) vm_create_ns,
              Call_validator (PyFunc 2) (vm_create_ns @ [(''checked'', PyBool True)])]\<rparr>)"
  using
    validation_chain_exclusive [of "sample_parsed [''vm'', ''list''] vm_list_ns vm_show_lists"
      sample_env "vm_list_ns @ [(''checked'', PyBool True)]" "[PyFunc 4]"]
    validation_chain_exclusive [of "sample_parsed [''vm'', ''create''] vm_create_ns vm_create_lists"
      sample_env "[]" "[PyFunc 1, PyFunc 2]"]
  by (simp add: sample_parsed_def command_validator_def argument_validators_def py_iter_def
      heap_get_def getattr_default_def vm_show_lists_def vm_list_ns_def vm_create_ns_def
      vm_create_lists_def sample_env_def sample_validator_def call_actions_def)

subsection \<open>The deprecation warnings\<close>

lemma implicit_deprecation_frame:
  assumes "implicit_deprecation env (PyStr name) s = (r, s')"
  shows "ns s' = ns s \<and> store s' = store s \<and> data s' = data s \<and> argv s' = argv s"
  using assms unfolding implicit_deprecation_search
  by (auto split: option.splits)

lemma heap_get_append_same:
  "a < length h \<Longrightarrow> heap_get (heap_append h a x) a = heap_get h a @ [x]"
  by (simp add: heap_get_def heap_append_def)

lemma heap_get_append_other:
  "b \<noteq> a \<Longrightarrow> heap_get (heap_append h a x) b = heap_get h b"
  by (simp add: heap_get_def heap_append_def)

lemma length_heap_append: "length (heap_append h a x) = length h"
  by (simp add: heap_append_def)

lemma getattr_or_new_list_present:
  "map_of (ns s) k = Some v \<Longrightarrow> getattr_or_new_list k s = (Inr v, s)"
  by (simp add: getattr_or_new_list_def)

lemma getattr_or_new_list_frame:
  "getattr_or_new_list k s = (r, s0) \<Longrightarrow>
   ns s0 = ns s \<and> data s0 = data s \<and> trace s0 = trace s \<and> argv s0 = argv s"
  by (auto simp: getattr_or_new_list_def heap_alloc_def split: option.splits)

lemma collect_deprecations_list:
  assumes "map_of (ns s) ''func'' = Some cmd"
    and "getattr_or_new_list ''_argument_deprecations'' s = (Inr (PyRef a), s0)"
    and "obj_attr cmd ''deprecate_info'' = Inr explicit"
    and "obj_attr cmd ''name'' = Inr (PyStr name)"
  shows "collect_deprecations env s =
     (case implicit_deprecation env (PyStr name) (with_explicit s0 a explicit) of
        (Inl e, s2) \<Rightarrow> (Inl e, s2)
      | (Inr None, s2) \<Rightarrow> (Inr (PyRef a), s2)
      | (Inr (Some d), s2) \<Rightarrow> (Inr (PyRef a), s2\<lparr>store := heap_append (store s2) a d\<rparr>))"
  using assms
  by (simp add: collect_deprecations_def and_then_def getattr_def with_explicit_def
      lift_def list_append_def succeed_def split: prod.splits sum.splits option.splits)

lemma implicit_deprecation_store_only:
  assumes "store s = store t"
  shows "fst (implicit_deprecation env (PyStr name) s) = fst (implicit_deprecation env (PyStr name) t)"
  unfolding implicit_deprecation_search using assms
  by (auto split: option.splits)

lemma emit_all_eq: "emit_all as s = (Inr (), s\<lparr>trace := trace s @ as\<rparr>)"
  by (induction as arbitrary: s) (simp_all add: succeed_def and_then_def emit_def)


lemma print_deprecations_frame:
  assumes "print_deprecations env deprecations s = (r, s')"
  shows "ns s' = ns s \<and> store s' = store s \<and> data s' = data s"
  using assms
  by (cases "py_iter (store s) deprecations")
     (auto simp: print_deprecations_def and_then_def emit_def lift_def emit_all_eq)

lemma call_func_frame:
  "call_func env f params s = (r, s') \<Longrightarrow> ns s' = ns s \<and> store s' = store s"
  by (auto simp: call_func_def split: if_splits sum.splits)

lemma data_get_frame:
  "data_get k s = (r, s') \<Longrightarrow> ns s' = ns s \<and> store s' = store s"
  by (auto simp: data_get_def split: sum.splits)

lemma result_stage_frame:
  assumes "result_stage env cmd_tbl params s = (r, s')"
  shows "ns s' = ns s \<and> store s' = store s"
proof (cases "map_of (ns s) ''func''")
  case None
  with assms show ?thesis
    by (simp add: result_stage_def and_then_def getattr_def)
next
  case (Some func)
  obtain r1 s1 where call: "call_func env func params s = (r1, s1)"
    by (cases "call_func env func params s")
  from call_func_frame [OF call] have f1: "ns s1 = ns s \<and> store s1 = store s" .
  show ?thesis
  proof (cases r1)
    case (Inl e)
    with assms Some call f1 show ?thesis
      by (simp add: result_stage_def and_then_def getattr_def)
  next
    case (Inr cmd_result)
    let ?s2 = "s1\<lparr>trace := trace s1 @
        [Raise_event EVENT_INVOKER_TRANSFORM_RESULT
           (Event_data [(''result'', todict env cmd_result)]),
         Raise_event EVENT_INVOKER_FILTER_RESULT
           (Event_data (transform_result_hook env [(''result'', todict env cmd_result)]))]\<rparr>"
    have "ns s' = ns ?s2 \<and> store s' = store ?s2"
      using assms Some call Inr
      by (auto simp: result_stage_def and_then_def getattr_def Let_def emit_def lift_def
          succeed_def dest: data_get_frame split: sum.splits option.splits prod.splits)
    with f1 show ?thesis by simp
  qed
qed

lemma collect_deprecations_success:
  assumes func: "map_of (ns s) ''func'' = Some cmd"
    and attr: "getattr_or_new_list ''_argument_deprecations'' s = (Inr (PyRef a), s0)"
    and explicit: "obj_attr cmd ''deprecate_info'' = Inr explicit"
    and name: "obj_attr cmd ''name'' = Inr (PyStr name)"
    and a: "a < length (store s0)"
    and ok: "collect_deprecations env s = (Inr deprecations, s')"
  shows "deprecations = PyRef a \<and> ns s' = ns s \<and> data s' = data s
     \<and> length (store s') = length (store s0)
     \<and> (\<exists>implicit.
           fst (implicit_deprecation env (PyStr name) (with_explicit s0 a explicit)) = Inr implicit
         \<and> heap_get (store s') a =
             heap_get (store s0) a @ (if truthy (store s0) explicit then [explicit] else []) @
               (case implicit of None \<Rightarrow> [] | Some d \<Rightarrow> [d]))"
proof -
  let ?s1 = "with_explicit s0 a explicit"
  obtain r s2 where imp: "implicit_deprecation env (PyStr name) ?s1 = (r, s2)"
    by (cases "implicit_deprecation env (PyStr name) ?s1")
  from implicit_deprecation_frame [OF imp]
  have frame: "ns s2 = ns ?s1" "store s2 = store ?s1" "data s2 = data ?s1" by simp_all
  from getattr_or_new_list_frame [OF attr]
  have s0: "ns s0 = ns s" "data s0 = data s" by simp_all
  have s1: "ns ?s1 = ns s" "data ?s1 = data s" "length (store ?s1) = length (store s0)"
    "heap_get (store ?s1) a =
       heap_get (store s0) a @ (if truthy (store s0) explicit then [explicit] else [])"
    using a s0 by (simp_all add: with_explicit_def length_heap_append heap_get_append_same)
  have a1: "a < length (store ?s1)" using a s1(3) by simp
  from ok have eq: "(case (r, s2) of
        (Inl e, s2) \<Rightarrow> (Inl e, s2)
      | (Inr None, s2) \<Rightarrow> (Inr (PyRef a), s2)
      | (Inr (Some d), s2) \<Rightarrow> (Inr (PyRef a), s2\<lparr>store := heap_append (store s2) a d\<rparr>))
      = (Inr deprecations, s')"
    unfolding collect_deprecations_list [OF func attr explicit name] imp
    by simp
  show ?thesis
  proof (cases r)
    case (Inl e)
    with eq show ?thesis by simp
  next
    case (Inr implicit)
    show ?thesis
    proof (cases implicit)
      case None
      with eq Inr have "deprecations = PyRef a" "s' = s2" by simp_all
      with frame s1 imp Inr None show ?thesis by simp
    next
      case (Some d)
      with eq Inr have "deprecations = PyRef a" "s' = s2\<lparr>store := heap_append (store s2) a d\<rparr>"
        by simp_all
      with frame s1 a1 imp Inr Some show ?thesis
        by (simp add: length_heap_append heap_get_append_same)
    qed
  qed
qed


lemma and_then_getattr:
  "map_of (ns s) k = Some v \<Longrightarrow> and_then (getattr k) f s = f v s"
  by (simp add: and_then_def getattr_def)

lemma after_validation_Inr:
  assumes "after_validation env cmd_tbl s = (Inr item, sf)"
  obtains command_name deprecations s1 s2 where
    "map_of (ns s) ''command'' = Some command_name"
    "collect_deprecations env (s\<lparr>data := data_setitem (data s) ''command'' command_name\<rparr>) =
       (Inr deprecations, s1)"
    "print_deprecations env deprecations s1 = (Inr (), s2)"
    "result_stage env cmd_tbl (filter_params (ns s)) s2 = (Inr item, sf)"
proof -
  from assms obtain command_name where c: "map_of (ns s) ''command'' = Some command_name"
    by (cases "map_of (ns s) ''command''")
       (auto simp: after_validation_def and_then_def getattr_def)
  let ?s0 = "s\<lparr>data := data_setitem (data s) ''command'' command_name\<rparr>"
  from assms c have rest: "and_then (collect_deprecations env) (\<lambda>deprecations.
       and_then (print_deprecations env deprecations) (\<lambda>_.
       result_stage env cmd_tbl (filter_params (ns s)))) ?s0 = (Inr item, sf)"
    by (simp add: after_validation_def and_then_getattr and_then_modify and_then_gets)
  from rest obtain deprecations s1 where
    coll: "collect_deprecations env ?s0 = (Inr deprecations, s1)"
    and rest2: "and_then (print_deprecations env deprecations) (\<lambda>_.
       result_stage env cmd_tbl (filter_params (ns s))) s1 = (Inr item, sf)"
    by (rule and_then_Inr_elim)
  from rest2 obtain u s2 where
    pr: "print_deprecations env deprecations s1 = (Inr u, s2)"
    and res: "result_stage env cmd_tbl (filter_params (ns s)) s2 = (Inr item, sf)"
    by (rule and_then_Inr_elim)
  from c coll pr res show ?thesis by (intro that) simp_all
qed

text \<open>
  C10. When the parsed namespace has the attribute \<open>_argument_deprecations\<close>, the
  list the warnings are collected in is that very list: after a run that gets through,
  the attribute still refers to the same list, and the list now holds, after its former
  elements, the explicit deprecation of the command (if any) and the implicit one (if
  any).
\<close>

theorem deprecations_alias_parsed_list:
  assumes "map_of (ns s) ''func'' = Some cmd"
    and "map_of (ns s) ''_argument_deprecations'' = Some (PyRef a)"
    and "obj_attr cmd ''deprecate_info'' = Inr explicit"
    and "obj_attr cmd ''name'' = Inr (PyStr name)"
    and "a < length (store s)"
    and "after_validation env cmd_tbl s = (Inr item, sf)"
  shows "map_of (ns sf) ''_argument_deprecations'' = Some (PyRef a)
    \<and> (\<exists>implicit.
          fst (implicit_deprecation env (PyStr name) (with_explicit s a explicit)) = Inr implicit
        \<and> heap_get (store sf) a =
            heap_get (store s) a @ (if truthy (store s) explicit then [explicit] else []) @
              (case implicit of None \<Rightarrow> [] | Some d \<Rightarrow> [d]))"
proof -
  from assms(6) obtain command_name deprecations s1 s2 where
    c: "map_of (ns s) ''command'' = Some command_name"
    and coll: "collect_deprecations env (s\<lparr>data := data_setitem (data s) ''command'' command_name\<rparr>) =
       (Inr deprecations, s1)"
    and pr: "print_deprecations env deprecations s1 = (Inr (), s2)"
    and res: "result_stage env cmd_tbl (filter_params (ns s)) s2 = (Inr item, sf)"
    by (rule after_validation_Inr)
  let ?s0 = "s\<lparr>data := data_setitem (data s) ''command'' command_name\<rparr>"
  have "map_of (ns ?s0) ''func'' = Some cmd"
    "getattr_or_new_list ''_argument_deprecations'' ?s0 = (Inr (PyRef a), ?s0)"
    "a < length (store ?s0)"
    using assms(1,2,5) by (simp_all add: getattr_or_new_list_present)
  from collect_deprecations_success [OF this(1,2) assms(3,4) this(3) coll]
  obtain implicit where ns1: "ns s1 = ns s"
    and imp0: "fst (implicit_deprecation env (PyStr name) (with_explicit ?s0 a explicit)) = Inr implicit"
    and list: "heap_get (store s1) a =
             heap_get (store s) a @ (if truthy (store s) explicit then [explicit] else []) @
               (case implicit of None \<Rightarrow> [] | Some d \<Rightarrow> [d])"
    by auto
  have "store (with_explicit ?s0 a explicit) = store (with_explicit s a explicit)"
    by (simp add: with_explicit_def)
  from implicit_deprecation_store_only [OF this, of env name] imp0
  have imp: "fst (implicit_deprecation env (PyStr name) (with_explicit s a explicit)) = Inr implicit"
    by simp
  from print_deprecations_frame [OF pr] result_stage_frame [OF res]
  have "ns sf = ns s1" "store sf = store s1" by simp_all
  with ns1 list imp assms(2) show ?thesis by auto
qed

subsection \<open>The sample run\<close>


lemma after_validation_sample:
  "after_validation sample_env sample_table vm_create_validated =
     (Inr (Some \<lparr>result = PyDict [(''a'', PyInt 1), (''b'', PyInt 2)],
                  table_transformer = PyNone, is_query_active = PyNone\<rparr>),
      vm_create_final)"
  by code_simp

lemma execute_sample:
  "execute sample_env [''vm'', ''create''] (init_state None) =
     (Inr (Some \<lparr>result = PyDict [(''a'', PyInt 1), (''b'', PyInt 2)],
                  table_transformer = PyNone, is_query_active = PyNone\<rparr>),
      vm_create_final)"
  by code_simp



lemma vm_create_validated_attrs:
  "map_of (ns vm_create_validated) ''func'' = Some vm_create"
  "map_of (ns vm_create_validated) ''_argument_deprecations'' = Some (PyRef 1)"
  "obj_attr vm_create ''deprecate_info'' = Inr (deprecated ''command'' ''vm create'')"
  "obj_attr vm_create ''name'' = Inr (PyStr ''vm create'')"
  "1 < length (store vm_create_validated)"
  by (simp_all add: vm_create_validated_def sample_parsed_def vm_create_def obj_attr_def
      vm_create_lists_def)


theorem deprecations_alias_parsed_list_witness:
  "after_validation sample_env sample_table vm_create_validated =
     (Inr (Some \<lparr>result = PyDict [(''a'', PyInt 1), (''b'', PyInt 2)],
                  table_transformer = PyNone, is_query_active = PyNone\<rparr>),
      vm_create_final)
   \<and> heap_get (store vm_create_validated) 1 = [deprecated ''argument'' ''--name'']
   \<and> map_of (ns vm_create_final) ''_argument_deprecations'' = Some (PyRef 1)
   \<and> heap_get (store vm_create_final) 1 = vm_create_warnings"
proof -
  from deprecations_alias_parsed_list [OF vm_create_validated_attrs after_validation_sample]
  have "map_of (ns vm_create_final) ''_argument_deprecations'' = Some (PyRef 1)" by blast
  moreover have "heap_get (store vm_create_validated) 1 = [deprecated ''argument'' ''--name'']"
    "heap_get (store vm_create_final) 1 = vm_create_warnings"
    by (simp_all add: heap_get_def vm_create_final_def vm_create_collected_def
        vm_create_validated_def sample_parsed_def vm_create_lists_def)
  ultimately show ?thesis using after_validation_sample by simp
qed

subsection \<open>The events of a run\<close>

lemma execute_Some_stages:
  assumes "execute env args s0 = (Inr (Some item), sf)"
  obtains s s1 where "reaches_validation env args s0 s"
    and "validation env s = (Inr (), s1)"
    and "after_validation env (load_command_table env args) s1 = (Inr (Some item), sf)"
proof -
  let ?args' = "snd (rudimentary_get_command args)"
  let ?cmd = "fst (rudimentary_get_command args)"
  let ?tbl = "load_command_table env args"
  let ?s1 = "s0\<lparr>argv := ?args',
        trace := trace s0 @
          [Raise_event EVENT_INVOKER_PRE_CMD_TBL_CREATE (Args args),
           Load_command_table args,
           Load_arguments ?cmd,
           Raise_event EVENT_INVOKER_POST_CMD_TBL_CREATE (Cmd_tbl ?tbl),
           Parser_load_command_table,
           Raise_event EVENT_INVOKER_CMD_TBL_LOADED (Parser (top_parser env))]\<rparr>"
  have ex: "execute env args s0 =
      (if ?args' = [] then show_welcome ?s1
       else run_command env ?tbl ?cmd (normalize_help ?args') (?s1\<lparr>argv := normalize_help ?args'\<rparr>))"
    by (simp add: execute_def and_then_def load_stage_eq modify_def case_prod_beta)
  have ne: "?args' \<noteq> []"
  proof
    assume "?args' = []"
    with ex assms show False
      by (simp add: show_welcome_def and_then_def emit_def succeed_def)
  qed
  with ex assms have run: "run_command env ?tbl ?cmd (normalize_help ?args')
      (?s1\<lparr>argv := normalize_help ?args'\<rparr>) = (Inr (Some item), sf)"
    by simp
  then obtain u s where parse: "parse_stage env ?tbl ?cmd (normalize_help ?args')
      (?s1\<lparr>argv := normalize_help ?args'\<rparr>) = (Inr u, s)"
    and rest: "and_then (validation env) (\<lambda>_. after_validation env ?tbl) s = (Inr (Some item), sf)"
    unfolding run_command_def by (rule and_then_Inr_elim)
  from rest obtain u' s1 where v: "validation env s = (Inr u', s1)"
    and av: "after_validation env ?tbl s1 = (Inr (Some item), sf)"
    by (rule and_then_Inr_elim)
  have "reaches_validation env args s0 s"
    using ne parse by (simp add: reaches_validation_def load_stage_eq case_prod_beta)
  with v av show ?thesis by (intro that) simp_all
qed

lemma reaches_validation_trace:
  assumes "reaches_validation env args s0 s"
  shows "\<exists>parsed_args command_name.
    trace s = trace s0 @
      [Raise_event EVENT_INVOKER_PRE_CMD_TBL_CREATE (Args args),
       Load_command_table args,
       Load_arguments (fst (rudimentary_get_command args)),
       Raise_event EVENT_INVOKER_POST_CMD_TBL_CREATE (Cmd_tbl (load_command_table env args)),
       Parser_load_command_table,
       Raise_event EVENT_INVOKER_CMD_TBL_LOADED (Parser (top_parser env)),
       Enable_autocomplete,
       Raise_event EVENT_INVOKER_PRE_PARSE_ARGS (Args parsed_args),
       Parse_args parsed_args,
       Raise_event EVENT_INVOKER_POST_PARSE_ARGS (Parsed command_name (ns s))]
    \<and> parsed_args = normalize_help (snd (rudimentary_get_command args))
    \<and> map_of (ns s) ''command'' = Some command_name"
  using assms
  by (auto simp: reaches_validation_def load_stage_eq case_prod_beta parse_stage_def
      and_then_def emit_def getattr_def split: sum.splits prod.splits option.splits)

lemma call_validator_events:
  "call_validator env v s = (r, s') \<Longrightarrow> filter is_event (trace s') = filter is_event (trace s)"
  by (auto simp: call_validator_def split: if_splits prod.splits option.splits)

lemma run_validators_events:
  "run_validators env vs s = (r, s') \<Longrightarrow> filter is_event (trace s') = filter is_event (trace s)"
proof (induction vs arbitrary: s)
  case Nil
  then show ?case by (simp add: succeed_def)
next
  case (Cons v vs)
  obtain r1 s1 where c: "call_validator env v s = (r1, s1)"
    by (cases "call_validator env v s")
  from call_validator_events [OF c] have e1: "filter is_event (trace s1) = filter is_event (trace s)" .
  show ?case
  proof (cases r1)
    case (Inl e)
    with Cons.prems c e1 show ?thesis by (simp add: and_then_def)
  next
    case (Inr u)
    with Cons.prems c have "run_validators env vs s1 = (r, s')" by (simp add: and_then_def)
    from Cons.IH [OF this] e1 show ?thesis by simp
  qed
qed

lemma validation_events:
  assumes "validation env s = (r, s')"
  shows "filter is_event (trace s') = filter is_event (trace s)"
proof -
  let ?cv = "getattr_default (ns s) ''_command_validator'' PyNone"
  obtain r1 s1 where d: "(if truthy (store s) ?cv then validate_cmd_level env ?cv s
            else validate_arg_level env s) = (r1, s1)"
    by (cases "if truthy (store s) ?cv then validate_cmd_level env ?cv s
            else validate_arg_level env s")
  have e1: "filter is_event (trace s1) = filter is_event (trace s)"
  proof (cases "truthy (store s) ?cv")
    case True
    with d show ?thesis
      by (auto simp: validate_cmd_level_def and_then_def delattr_quiet_eq
          dest: call_validator_events split: sum.splits prod.splits)
  next
    case False
    with d show ?thesis
      by (auto simp: validate_arg_level_def and_then_def delattr_quiet_eq succeed_def lift_def
          dest: run_validators_events split: sum.splits prod.splits option.splits)
  qed
  from assms d e1 show ?thesis
    by (auto simp: validation_def Let_def validation_error_def and_then_def emit_def raise_def
        split: sum.splits if_splits)
qed

lemma filter_event_resolve: "filter is_event (map Resolve_deprecate_info ps) = []"
  by (induction ps) simp_all

lemma filter_event_print: "filter is_event (map (\<lambda>d. Print_stderr (f d)) ds) = []"
  by (induction ds) simp_all

lemma implicit_deprecation_events:
  assumes "implicit_deprecation env name s = (r, s')"
  shows "filter is_event (trace s') = filter is_event (trace s)"
proof (cases name)
  case (PyStr n)
  with assms show ?thesis unfolding PyStr implicit_deprecation_search
    by (auto simp: filter_event_resolve split: option.splits)
qed (use assms in \<open>auto simp: implicit_deprecation_def str_split_def and_then_def lift_def\<close>)

lemma list_append_events:
  "list_append l x s = (r, s') \<Longrightarrow> trace s' = trace s"
  by (auto simp: list_append_def split: pyval.splits)

lemma collect_deprecations_events:
  assumes "collect_deprecations env s = (Inr deprecations, s')"
  shows "filter is_event (trace s') = filter is_event (trace s)"
proof -
  from assms obtain cmd s1 where g: "getattr ''func'' s = (Inr cmd, s1)"
    and r1: "and_then (getattr_or_new_list ''_argument_deprecations'') (\<lambda>deprecations.
     and_then (lift (obj_attr cmd ''deprecate_info'')) (\<lambda>deprecate_info.
     and_then
       (\<lambda>s. if truthy (store s) deprecate_info then list_append deprecations deprecate_info s
            else succeed () s) (\<lambda>_.
     and_then (lift (obj_attr cmd ''name'')) (\<lambda>name.
     and_then (implicit_deprecation env name) (\<lambda>implicit.
     and_then
       (case implicit of
          Some d \<Rightarrow> list_append deprecations d
        | None \<Rightarrow> succeed ()) (\<lambda>_.
     succeed deprecations)))))) s1 = (Inr deprecations, s')"
    unfolding collect_deprecations_def by (rule and_then_Inr_elim)
  from g have t1: "trace s1 = trace s" by (auto simp: getattr_def split: option.splits)
  from r1 obtain l s2 where g2: "getattr_or_new_list ''_argument_deprecations'' s1 = (Inr l, s2)"
    and r2: "and_then (lift (obj_attr cmd ''deprecate_info'')) (\<lambda>deprecate_info.
     and_then
       (\<lambda>s. if truthy (store s) deprecate_info then list_append l deprecate_info s
            else succeed () s) (\<lambda>_.
     and_then (lift (obj_attr cmd ''name'')) (\<lambda>name.
     and_then (implicit_deprecation env name) (\<lambda>implicit.
     and_then
       (case implicit of
          Some d \<Rightarrow> list_append l d
        | None \<Rightarrow> succeed ()) (\<lambda>_.
     succeed l))))) s2 = (Inr deprecations, s')"
    by (rule and_then_Inr_elim)
  from getattr_or_new_list_frame [OF g2] have t2: "trace s2 = trace s1" by simp
  from r2 obtain di s3 where g3: "lift (obj_attr cmd ''deprecate_info'') s2 = (Inr di, s3)"
    and r3: "and_then
       (\<lambda>s. if truthy (store s) di then list_append l di s
            else succeed () s) (\<lambda>_.
     and_then (lift (obj_attr cmd ''name'')) (\<lambda>name.
     and_then (implicit_deprecation env name) (\<lambda>implicit.
     and_then
       (case implicit of
          Some d \<Rightarrow> list_append l d
        | None \<Rightarrow> succeed ()) (\<lambda>_.
     succeed l)))) s3 = (Inr deprecations, s')"
    by (rule and_then_Inr_elim)
  from g3 have t3: "trace s3 = trace s2" by (auto simp: lift_def split: sum.splits)
  from r3 obtain u s4 where g4: "(if truthy (store s3) di then list_append l di s3
            else succeed () s3) = (Inr u, s4)"
    and r4: "and_then (lift (obj_attr cmd ''name'')) (\<lambda>name.
     and_then (implicit_deprecation env name) (\<lambda>implicit.
     and_then
       (case implicit of
          Some d \<Rightarrow> list_append l d
        | None \<Rightarrow> succeed ()) (\<lambda>_.
     succeed l))) s4 = (Inr deprecations, s')"
    by (rule and_then_Inr_elim)
  from g4 have t4: "trace s4 = trace s3"
    by (auto simp: succeed_def dest: list_append_events split: if_splits)
  from r4 obtain name s5 where g5: "lift (obj_attr cmd ''name'') s4 = (Inr name, s5)"
    and r5: "and_then (implicit_deprecation env name) (\<lambda>implicit.
     and_then
       (case implicit of
          Some d \<Rightarrow> list_append l d
        | None \<Rightarrow> succeed ()) (\<lambda>_.
     succeed l)) s5 = (Inr deprecations, s')"
    by (rule and_then_Inr_elim)
  from g5 have t5: "trace s5 = trace s4" by (auto simp: lift_def split: sum.splits)
  from r5 obtain implicit s6 where g6: "implicit_deprecation env name s5 = (Inr implicit, s6)"
    and r6: "and_then
       (case implicit of
          Some d \<Rightarrow> list_append l d
        | None \<Rightarrow> succeed ()) (\<lambda>_.
     succeed l) s6 = (Inr deprecations, s')"
    by (rule and_then_Inr_elim)
  from implicit_deprecation_events [OF g6]
  have t6: "filter is_event (trace s6) = filter is_event (trace s5)" .
  from r6 have t7: "trace s' = trace s6"
    by (auto simp: and_then_def succeed_def dest: list_append_events
        split: option.splits sum.splits prod.splits)
  from t1 t2 t3 t4 t5 t6 t7 show ?thesis by simp
qed

lemma print_deprecations_events:
  assumes "print_deprecations env deprecations s = (r, s')"
  shows "filter is_event (trace s') = filter is_event (trace s)"
  using assms
  by (cases "py_iter (store s) deprecations")
     (auto simp: print_deprecations_def and_then_def emit_def lift_def emit_all_eq
        filter_event_print)

lemma call_func_Inr:
  assumes "call_func env f params s = (Inr r, s')"
  shows "call_handler env f params = Inr r \<and> s' = s\<lparr>trace := trace s @ [Call_handler f params]\<rparr>"
  using assms by (auto simp: call_func_def split: if_splits sum.splits)

lemma lift_Inr_iff: "lift r s = (Inr x, s') \<longleftrightarrow> r = Inr x \<and> s' = s"
  by (cases r) (auto simp: lift_def)

lemma getattr_Inr_iff:
  "getattr k s = (Inr v, s') \<longleftrightarrow> map_of (ns s) k = Some v \<and> s' = s"
  by (cases "map_of (ns s) k") (auto simp: getattr_def)

lemma data_get_Inr_iff:
  "data_get k s = (Inr v, s') \<longleftrightarrow>
     (\<exists>d. data_getitem (data s) k = Inr (v, d) \<and> s' = s\<lparr>data := d\<rparr>)"
  by (cases "data_getitem (data s) k") (auto simp: data_get_def)

lemma result_stage_Inr:
  assumes "result_stage env cmd_tbl params s = (Inr res, sf)"
  obtains func cmd_result item where
    "res = Some item"
    "map_of (ns s) ''func'' = Some func"
    "call_handler env func params = Inr cmd_result"
    "trace sf = trace s @
       [Call_handler func params,
        Raise_event EVENT_INVOKER_TRANSFORM_RESULT
          (Event_data [(''result'', todict env cmd_result)]),
        Raise_event EVENT_INVOKER_FILTER_RESULT
          (Event_data (transform_result_hook env [(''result'', todict env cmd_result)]))]"
    "dict_getitem
       (filter_result_hook env (transform_result_hook env [(''result'', todict env cmd_result)]))
       ''result'' = Inr (result item)"
    "data_getitem (data s) ''query_active'' = Inr (is_query_active item, data sf)"
proof -
  from assms obtain func where f: "map_of (ns s) ''func'' = Some func"
    by (cases "map_of (ns s) ''func''") (auto simp: result_stage_def and_then_def getattr_def)
  let ?ed = "\<lambda>cmd_result. filter_result_hook env
      (transform_result_hook env [(''result'', todict env cmd_result)])"
  from assms f have rs: "and_then (call_func env func params) (\<lambda>cmd_result.
     and_then (emit (Raise_event EVENT_INVOKER_TRANSFORM_RESULT
        (Event_data [(''result'', todict env cmd_result)]))) (\<lambda>_.
     and_then (emit (Raise_event EVENT_INVOKER_FILTER_RESULT
        (Event_data (transform_result_hook env [(''result'', todict env cmd_result)])))) (\<lambda>_.
     and_then (lift (dict_getitem (?ed cmd_result) ''result'')) (\<lambda>res.
     and_then (getattr ''command'') (\<lambda>command_name.
     and_then (lift (tbl_getitem cmd_tbl command_name)) (\<lambda>cmd.
     and_then (lift (obj_attr cmd ''table_transformer'')) (\<lambda>transformer.
     and_then (data_get ''query_active'') (\<lambda>query_active.
     succeed (Some \<lparr>result = res, table_transformer = transformer,
                    is_query_active = query_active\<rparr>))))))))) s = (Inr res, sf)"
    by (simp add: result_stage_def and_then_getattr Let_def)
  from rs obtain cmd_result s1 where
    call: "call_func env func params s = (Inr cmd_result, s1)"
    and rs1: "and_then (emit (Raise_event EVENT_INVOKER_TRANSFORM_RESULT
        (Event_data [(''result'', todict env cmd_result)]))) (\<lambda>_.
     and_then (emit (Raise_event EVENT_INVOKER_FILTER_RESULT
        (Event_data (transform_result_hook env [(''result'', todict env cmd_result)])))) (\<lambda>_.
     and_then (lift (dict_getitem (?ed cmd_result) ''result'')) (\<lambda>res.
     and_then (getattr ''command'') (\<lambda>command_name.
     and_then (lift (tbl_getitem cmd_tbl command_name)) (\<lambda>cmd.
     and_then (lift (obj_attr cmd ''table_transformer'')) (\<lambda>transformer.
     and_then (data_get ''query_active'') (\<lambda>query_active.
     succeed (Some \<lparr>result = res, table_transformer = transformer,
                    is_query_active = query_active\<rparr>)))))))) s1 = (Inr res, sf)"
    by (rule and_then_Inr_elim)
  from call_func_Inr [OF call]
  have h: "call_handler env func params = Inr cmd_result"
    and s1: "s1 = s\<lparr>trace := trace s @ [Call_handler func params]\<rparr>" by simp_all
  let ?ed = "filter_result_hook env (transform_result_hook env [(''result'', todict env cmd_result)])"
  let ?s2 = "s1\<lparr>trace := trace s1 @
        [Raise_event EVENT_INVOKER_TRANSFORM_RESULT
           (Event_data [(''result'', todict env cmd_result)]),
         Raise_event EVENT_INVOKER_FILTER_RESULT
           (Event_data (transform_result_hook env [(''result'', todict env cmd_result)]))]\<rparr>"
  from rs1 have rest: "and_then (lift (dict_getitem ?ed ''result'')) (\<lambda>res.
     and_then (getattr ''command'') (\<lambda>command_name.
     and_then (lift (tbl_getitem cmd_tbl command_name)) (\<lambda>cmd.
     and_then (lift (obj_attr cmd ''table_transformer'')) (\<lambda>transformer.
     and_then (data_get ''query_active'') (\<lambda>query_active.
     succeed (Some \<lparr>result = res, table_transformer = transformer,
                    is_query_active = query_active\<rparr>)))))) ?s2 = (Inr res, sf)"
    by (simp add: and_then_emit)
  from rest obtain payload s3 where p0: "lift (dict_getitem ?ed ''result'') ?s2 = (Inr payload, s3)"
    and rest2: "and_then (getattr ''command'') (\<lambda>command_name.
     and_then (lift (tbl_getitem cmd_tbl command_name)) (\<lambda>cmd.
     and_then (lift (obj_attr cmd ''table_transformer'')) (\<lambda>transformer.
     and_then (data_get ''query_active'') (\<lambda>query_active.
     succeed (Some \<lparr>result = payload, table_transformer = transformer,
                    is_query_active = query_active\<rparr>))))) s3 = (Inr res, sf)"
    by (rule and_then_Inr_elim)
  from p0 have p: "dict_getitem ?ed ''result'' = Inr payload" and s3: "s3 = ?s2"
    by (simp_all add: lift_Inr_iff)
  from rest2 obtain command_name s4 where c0: "getattr ''command'' s3 = (Inr command_name, s4)"
    and rest3: "and_then (lift (tbl_getitem cmd_tbl command_name)) (\<lambda>cmd.
     and_then (lift (obj_attr cmd ''table_transformer'')) (\<lambda>transformer.
     and_then (data_get ''query_active'') (\<lambda>query_active.
     succeed (Some \<lparr>result = payload, table_transformer = transformer,
                    is_query_active = query_active\<rparr>)))) s4 = (Inr res, sf)"
    by (rule and_then_Inr_elim)
  from c0 have s4: "s4 = s3" by (simp add: getattr_Inr_iff)
  from rest3 obtain cmd s5 where cm0: "lift (tbl_getitem cmd_tbl command_name) s4 = (Inr cmd, s5)"
    and rest4: "and_then (lift (obj_attr cmd ''table_transformer'')) (\<lambda>transformer.
     and_then (data_get ''query_active'') (\<lambda>query_active.
     succeed (Some \<lparr>result = payload, table_transformer = transformer,
                    is_query_active = query_active\<rparr>))) s5 = (Inr res, sf)"
    by (rule and_then_Inr_elim)
  from cm0 have s5: "s5 = s4" by (simp add: lift_Inr_iff)
  from rest4 obtain transformer s6 where
    tt0: "lift (obj_attr cmd ''table_transformer'') s5 = (Inr transformer, s6)"
    and rest5: "and_then (data_get ''query_active'') (\<lambda>query_active.
     succeed (Some \<lparr>result = payload, table_transformer = transformer,
                    is_query_active = query_active\<rparr>)) s6 = (Inr res, sf)"
    by (rule and_then_Inr_elim)
  from tt0 have s6: "s6 = s5" by (simp add: lift_Inr_iff)
  from rest5 obtain qa s7 where q0: "data_get ''query_active'' s6 = (Inr qa, s7)"
    and fin: "succeed (Some \<lparr>result = payload, table_transformer = transformer,
                    is_query_active = qa\<rparr>) s7 = (Inr res, sf)"
    by (rule and_then_Inr_elim)
  from q0 obtain d where q: "data_getitem (data s6) ''query_active'' = Inr (qa, d)"
    and s7: "s7 = s6\<lparr>data := d\<rparr>"
    by (auto simp: data_get_Inr_iff)
  from fin have res: "res = Some \<lparr>result = payload, table_transformer = transformer, is_query_active = qa\<rparr>"
    and sf: "sf = s7" by (simp_all add: succeed_def)
  show ?thesis
    by (rule that [OF res f h]) (use p q s1 s3 s4 s5 s6 s7 sf in simp_all)
qed

text \<open>
  C6. In a run that returns a result item the events are raised in the fixed order:
  before and after the creation of the command table, after its loading into the parser,
  before and after the parsing, then the transformation and the filtering of the result.
  The two result events work on one event data: the transformation is raised with the
  handler's result (as \<^verbatim>\<open>todict\<close> gives it), the filtering with what the hooks of the
  transformation left, and the payload of the item returned is the \<open>result\<close> entry
  that the hooks of the filtering left.
\<close>

theorem result_pipeline_order:
  assumes "execute env args s0 = (Inr (Some item), sf)"
  shows "\<exists>command_name parsed func params cmd_result.
      filter is_event (trace sf) = filter is_event (trace s0) @
        [Raise_event EVENT_INVOKER_PRE_CMD_TBL_CREATE (Args args),
         Raise_event EVENT_INVOKER_POST_CMD_TBL_CREATE (Cmd_tbl (load_command_table env args)),
         Raise_event EVENT_INVOKER_CMD_TBL_LOADED (Parser (top_parser env)),
         Raise_event EVENT_INVOKER_PRE_PARSE_ARGS
           (Args (normalize_help (snd (rudimentary_get_command args)))),
         Raise_event EVENT_INVOKER_POST_PARSE_ARGS (Parsed command_name parsed),
         Raise_event EVENT_INVOKER_TRANSFORM_RESULT
           (Event_data [(''result'', todict env cmd_result)]),
         Raise_event EVENT_INVOKER_FILTER_RESULT
           (Event_data (transform_result_hook env [(''result'', todict env cmd_result)]))]
    \<and> call_handler env func params = Inr cmd_result
    \<and> dict_getitem
         (filter_result_hook env (transform_result_hook env [(''result'', todict env cmd_result)]))
         ''result'' = Inr (result item)"
proof -
  from assms obtain s s1 where reach: "reaches_validation env args s0 s"
    and valid: "validation env s = (Inr (), s1)"
    and after: "after_validation env (load_command_table env args) s1 = (Inr (Some item), sf)"
    by (rule execute_Some_stages)
  from reaches_validation_trace [OF reach] obtain command_name where
    e0: "filter is_event (trace s) = filter is_event (trace s0) @
        [Raise_event EVENT_INVOKER_PRE_CMD_TBL_CREATE (Args args),
         Raise_event EVENT_INVOKER_POST_CMD_TBL_CREATE (Cmd_tbl (load_command_table env args)),
         Raise_event EVENT_INVOKER_CMD_TBL_LOADED (Parser (top_parser env)),
         Raise_event EVENT_INVOKER_PRE_PARSE_ARGS
           (Args (normalize_help (snd (rudimentary_get_command args)))),
         Raise_event EVENT_INVOKER_POST_PARSE_ARGS (Parsed command_name (ns s))]"
    by auto
  from validation_events [OF valid]
  have e1: "filter is_event (trace s1) = filter is_event (trace s)" .
  from after obtain c deprecations s2 s3 where
    coll: "collect_deprecations env (s1\<lparr>data := data_setitem (data s1) ''command'' c\<rparr>) =
       (Inr deprecations, s2)"
    and pr: "print_deprecations env deprecations s2 = (Inr (), s3)"
    and res: "result_stage env (load_command_table env args) (filter_params (ns s1)) s3 =
       (Inr (Some item), sf)"
    by (rule after_validation_Inr)
  from collect_deprecations_events [OF coll]
  have e2: "filter is_event (trace s2) = filter is_event (trace s1)" by simp
  from print_deprecations_events [OF pr]
  have e3: "filter is_event (trace s3) = filter is_event (trace s2)" .
  from res obtain func cmd_result item' where
    "Some item = Some item'"
    and h: "call_handler env func (filter_params (ns s1)) = Inr cmd_result"
    and tr: "trace sf = trace s3 @
       [Call_handler func (filter_params (ns s1)),
        Raise_event EVENT_INVOKER_TRANSFORM_RESULT
          (Event_data [(''result'', todict env cmd_result)]),
        Raise_event EVENT_INVOKER_FILTER_RESULT
          (Event_data (transform_result_hook env [(''result'', todict env cmd_result)]))]"
    and payload: "dict_getitem
       (filter_result_hook env (transform_result_hook env [(''result'', todict env cmd_result)]))
       ''result'' = Inr (result item')"
    by (rule result_stage_Inr)
  then have item: "item' = item" by simp
  have "filter is_event (trace sf) = filter is_event (trace s0) @
        [Raise_event EVENT_INVOKER_PRE_CMD_TBL_CREATE (Args args),
         Raise_event EVENT_INVOKER_POST_CMD_TBL_CREATE (Cmd_tbl (load_command_table env args)),
         Raise_event EVENT_INVOKER_CMD_TBL_LOADED (Parser (top_parser env)),
         Raise_event EVENT_INVOKER_PRE_PARSE_ARGS
           (Args (normalize_help (snd (rudimentary_get_command args)))),
         Raise_event EVENT_INVOKER_POST_PARSE_ARGS (Parsed command_name (ns s)),
         Raise_event EVENT_INVOKER_TRANSFORM_RESULT
           (Event_data [(''result'', todict env cmd_result)]),
         Raise_event EVENT_INVOKER_FILTER_RESULT
           (Event_data (transform_result_hook env [(''result'', todict env cmd_result)]))]"
    by (simp add: tr e3 e2 e1 e0)
  with h payload item show ?thesis by blast
qed

lemma events_sample:
  "filter is_event (trace vm_create_final) =
     [Raise_event EVENT_INVOKER_PRE_CMD_TBL_CREATE (Args [''vm'', ''create'']),
      Raise_event EVENT_INVOKER_POST_CMD_TBL_CREATE (Cmd_tbl sample_table),
      Raise_event EVENT_INVOKER_CMD_TBL_LOADED (Parser (top_parser sample_env)),
      Raise_event EVENT_INVOKER_PRE_PARSE_ARGS (Args [''vm'', ''create'']),
      Raise_event EVENT_INVOKER_POST_PARSE_ARGS (Parsed (PyStr ''vm create'') vm_create_ns),
      Raise_event EVENT_INVOKER_TRANSFORM_RESULT
        (Event_data [(''result'', PyDict [(''name'', PyStr ''box''), (''checked'', PyBool True)])]),
      Raise_event EVENT_INVOKER_FILTER_RESULT
        (Event_data [(''result'', PyDict [(''a'', PyInt 1)])])]"
  by code_simp

theorem result_pipeline_order_witness:
  "execute sample_env [''vm'', ''create''] (init_state None) =
     (Inr (Some \<lparr>result = PyDict [(''a'', PyInt 1), (''b'', PyInt 2)],
                  table_transformer = PyNone, is_query_active = PyNone\<rparr>),
      vm_create_final)
   \<and> (\<exists>command_name parsed func params cmd_result.
      filter is_event (trace vm_create_final) = filter is_event (trace (init_state None)) @
        [Raise_event EVENT_INVOKER_PRE_CMD_TBL_CREATE (Args [''vm'', ''create'']),
         Raise_event EVENT_INVOKER_POST_CMD_TBL_CREATE
           (Cmd_tbl (load_command_table sample_env [''vm'', ''create''])),
         Raise_event EVENT_INVOKER_CMD_TBL_LOADED (Parser (top_parser sample_env)),
         Raise_event EVENT_INVOKER_PRE_PARSE_ARGS
           (Args (normalize_help (snd (rudimentary_get_command [''vm'', ''create''])))),
         Raise_event EVENT_INVOKER_POST_PARSE_ARGS (Parsed command_name parsed),
         Raise_event EVENT_INVOKER_TRANSFORM_RESULT
           (Event_data [(''result'', todict sample_env cmd_result)]),
         Raise_event EVENT_INVOKER_FILTER_RESULT
           (Event_data (transform_result_hook sample_env [(''result'', todict sample_env cmd_result)]))]
      \<and> call_handler sample_env func params = Inr cmd_result
      \<and> dict_getitem
           (filter_result_hook sample_env
              (transform_result_hook sample_env [(''result'', todict sample_env cmd_result)]))
           ''result'' = Inr (PyDict [(''a'', PyInt 1), (''b'', PyInt 2)]))
   \<and> filter is_event (trace vm_create_final) =
     [Raise_event EVENT_INVOKER_PRE_CMD_TBL_CREATE (Args [''vm'', ''create'']),
      Raise_event EVENT_INVOKER_POST_CMD_TBL_CREATE (Cmd_tbl sample_table),
      Raise_event EVENT_INVOKER_CMD_TBL_LOADED (Parser (top_parser sample_env)),
      Raise_event EVENT_INVOKER_PRE_PARSE_ARGS (Args [''vm'', ''create'']),
      Raise_event EVENT_INVOKER_POST_PARSE_ARGS (Parsed (PyStr ''vm create'') vm_create_ns),
      Raise_event EVENT_INVOKER_TRANSFORM_RESULT
        (Event_data [(''result'', PyDict [(''name'', PyStr ''box''), (''checked'', PyBool True)])]),
      Raise_event EVENT_INVOKER_FILTER_RESULT
        (Event_data [(''result'', PyDict [(''a'', PyInt 1)])])]"
  using result_pipeline_order [OF execute_sample] execute_sample events_sample
  by simp

subsection \<open>The help token\<close>

lemma execute_nonempty:
  assumes "snd (rudimentary_get_command args) \<noteq> []"
  shows "execute env args s =
     run_command env (load_command_table env args) (fst (rudimentary_get_command args))
       (normalize_help (snd (rudimentary_get_command args)))
       (s\<lparr>trace := trace s @
            [Raise_event EVENT_INVOKER_PRE_CMD_TBL_CREATE (Args args),
             Load_command_table args,
             Load_arguments (fst (rudimentary_get_command args)),
             Raise_event EVENT_INVOKER_POST_CMD_TBL_CREATE (Cmd_tbl (load_command_table env args)),
             Parser_load_command_table,
             Raise_event EVENT_INVOKER_CMD_TBL_LOADED (Parser (top_parser env))],
          argv := normalize_help (snd (rudimentary_get_command args))\<rparr>)"
  using assms
  by (simp add: execute_def and_then_def load_stage_eq modify_def case_prod_beta)

lemma lower_help_not_option:
  assumes "lower first = ''help''"
  shows "\<not> (first \<noteq> [] \<and> hd first = CHR ''-'')"
proof
  assume "first \<noteq> [] \<and> hd first = CHR ''-''"
  then obtain cs where "first = CHR ''-'' # cs" by (cases first) auto
  with assms show False by (simp add: lower_def lower_char_def)
qed

lemma rudimentary_get_command_help:
  "lower first = ''help'' \<Longrightarrow> rudimentary_get_command [first] = (''help'', [''help''])"
  using lower_help_not_option [of first]
  by (simp add: rudimentary_get_command_def)

lemma rudimentary_get_command_dashes:
  "rudimentary_get_command [''--help''] = ([], [''--help''])"
  by (simp add: rudimentary_get_command_def)

lemma normalize_help_help: "normalize_help [''help''] = [''--help'']"
  by (simp add: normalize_help_def lower_def lower_char_def)

lemma normalize_help_dashes: "normalize_help [''--help''] = [''--help'']"
  by (simp add: normalize_help_def lower_def lower_char_def)

text \<open>
  The two runs on the sample: they differ in their first three actions, hence as runs.
\<close>

theorem help_runs_differ:
  "take 3 (trace (snd (execute sample_env [''help''] (init_state None)))) =
     [Raise_event EVENT_INVOKER_PRE_CMD_TBL_CREATE (Args [''help'']),
      Load_command_table [''help''], Load_arguments ''help'']
   \<and> take 3 (trace (snd (execute sample_env [''--help''] (init_state None)))) =
     [Raise_event EVENT_INVOKER_PRE_CMD_TBL_CREATE (Args [''--help'']),
      Load_command_table [''--help''], Load_arguments []]
   \<and> execute sample_env [''help''] (init_state None) \<noteq>
       execute sample_env [''--help''] (init_state None)"
  by code_simp

lemma help_runs_sample:
  "fst (execute sample_env [''HeLp''] (init_state None)) = Inl (Exn SystemExit ''0'')"
  "fst (execute sample_env [''--help''] (init_state None)) = Inl (Exn SystemExit ''0'')"
  by code_simp+

text \<open>
  C9 on the sample. An invoker built with the caller's mapping \<open>{x: 1}\<close>, a plain
  dict, starts with that mapping and the entry \<open>command\<close>; its run of \<open>vm create\<close>
  calls the handler and then fails with \<^verbatim>\<open>KeyError\<close> at the read of
  \<open>query_active\<close> in line 181. The same run of an invoker built without initial data
  returns the item, its flag being \<open>None\<close>.
\<close>

theorem query_active_key_error:
  "init_data (Some \<lparr>default_factory = None, items = [(''x'', PyInt 1)]\<rparr>) =
     \<lparr>default_factory = None, items = [(''x'', PyInt 1), (''command'', PyStr ''unknown'')]\<rparr>
   \<and> fst (execute sample_env [''vm'', ''create'']
         (init_state (Some \<lparr>default_factory = None, items = [(''x'', PyInt 1)]\<rparr>))) =
       Inl (Exn KeyError (quoted ''query_active''))
   \<and> Call_handler vm_create [(''name'', PyStr ''box''), (''checked'', PyBool True)]
       \<in> set (trace (snd (execute sample_env [''vm'', ''create'']
         (init_state (Some \<lparr>default_factory = None, items = [(''x'', PyInt 1)]\<rparr>)))))
   \<and> fst (execute sample_env [''vm'', ''create''] (init_state None)) =
       Inr (Some \<lparr>result = PyDict [(''a'', PyInt 1), (''b'', PyInt 2)],
                   table_transformer = PyNone, is_query_active = PyNone\<rparr>)"
  by code_simp

subsection \<open>Runs do not read the trace\<close>

text \<open>
  A step only appends to the trace: run from a state with more actions in front, it gives
  the same result and the same state, with those actions in front.
\<close>

lemma shift_fields:
  "ns (shift p s) = ns s" "store (shift p s) = store s" "data (shift p s) = data s"
  "argv (shift p s) = argv s" "trace (shift p s) = p @ trace s"
  by (simp_all add: shift_def)

lemma shift_updates:
  "shift p (s\<lparr>trace := trace s @ as\<rparr>) = (shift p s)\<lparr>trace := trace (shift p s) @ as\<rparr>"
  "shift p (s\<lparr>ns := d\<rparr>) = (shift p s)\<lparr>ns := d\<rparr>"
  "shift p (s\<lparr>store := h\<rparr>) = (shift p s)\<lparr>store := h\<rparr>"
  "shift p (s\<lparr>data := dt\<rparr>) = (shift p s)\<lparr>data := dt\<rparr>"
  "shift p (s\<lparr>argv := a\<rparr>) = (shift p s)\<lparr>argv := a\<rparr>"
  by (simp_all add: shift_def)

lemma and_then_shift:
  assumes "\<And>s. m (shift p s) = apsnd (shift p) (m s)"
    and "\<And>x s. f x (shift p s) = apsnd (shift p) (f x s)"
  shows "and_then m f (shift p s) = apsnd (shift p) (and_then m f s)"
  by (cases "m s"; cases "fst (m s)") (simp_all add: and_then_def assms)

lemma succeed_shift: "succeed x (shift p s) = apsnd (shift p) (succeed x s)"
  by (simp add: succeed_def)

lemma raise_shift: "raise e (shift p s) = apsnd (shift p) (raise e s)"
  by (simp add: raise_def)

lemma lift_shift: "lift r (shift p s) = apsnd (shift p) (lift r s)"
  by (cases r) (simp_all add: lift_def)

lemma emit_shift: "emit a (shift p s) = apsnd (shift p) (emit a s)"
  by (simp add: emit_def shift_def)

lemma emit_all_shift: "emit_all as (shift p s) = apsnd (shift p) (emit_all as s)"
  by (simp add: emit_all_eq shift_def)

lemma getattr_shift: "getattr k (shift p s) = apsnd (shift p) (getattr k s)"
  by (cases "map_of (ns s) k") (simp_all add: getattr_def shift_fields)

lemma getattr_or_new_list_shift:
  "getattr_or_new_list k (shift p s) = apsnd (shift p) (getattr_or_new_list k s)"
  by (cases "map_of (ns s) k")
     (simp_all add: getattr_or_new_list_def shift_fields heap_alloc_def shift_updates)

lemma list_append_shift: "list_append l x (shift p s) = apsnd (shift p) (list_append l x s)"
  by (cases l) (simp_all add: list_append_def shift_fields shift_updates)

lemma data_get_shift: "data_get k (shift p s) = apsnd (shift p) (data_get k s)"
  by (cases "data_getitem (data s) k")
     (auto simp: data_get_def shift_fields shift_updates)

lemma call_func_shift: "call_func env f params (shift p s) = apsnd (shift p) (call_func env f params s)"
  by (cases "call_handler env f params") (simp_all add: call_func_def shift_def)

lemma call_validator_shift:
  "call_validator env v (shift p s) = apsnd (shift p) (call_validator env v s)"
  by (cases "run_validator env v (ns s)"; cases "fst (run_validator env v (ns s))")
     (simp_all add: call_validator_def shift_def)

lemma delattr_quiet_shift: "delattr_quiet k (shift p s) = apsnd (shift p) (delattr_quiet k s)"
  by (simp add: delattr_quiet_eq shift_def)

lemma modify_data_shift:
  "modify (\<lambda>s. s\<lparr>data := g (data s)\<rparr>) (shift p s) =
     apsnd (shift p) (modify (\<lambda>s. s\<lparr>data := g (data s)\<rparr>) s)"
  by (simp add: modify_def shift_def)

lemma gets_ns_shift:
  "gets (\<lambda>s. g (ns s)) (shift p s) = apsnd (shift p) (gets (\<lambda>s. g (ns s)) s)"
  by (simp add: gets_def shift_def)

lemma run_validators_shift:
  "run_validators env vs (shift p s) = apsnd (shift p) (run_validators env vs s)"
proof (induction vs arbitrary: s)
  case Nil
  show ?case by (simp add: succeed_shift)
next
  case (Cons v vs)
  show ?case by (simp, intro and_then_shift) (simp_all add: call_validator_shift Cons.IH)
qed

lemma validate_cmd_level_shift:
  "validate_cmd_level env cv (shift p s) = apsnd (shift p) (validate_cmd_level env cv s)"
  unfolding validate_cmd_level_def
  by (intro and_then_shift) (simp_all add: shift_fields call_validator_shift succeed_shift
      delattr_quiet_shift)

lemma validate_arg_level_shift:
  "validate_arg_level env (shift p s) = apsnd (shift p) (validate_arg_level env s)"
  unfolding validate_arg_level_def
  by (intro and_then_shift)
     (simp_all add: shift_fields succeed_shift lift_shift run_validators_shift
        delattr_quiet_shift split: option.splits)

lemma validation_error_shift:
  "validation_error q msg (shift p s) = apsnd (shift p) (validation_error q msg s)"
  unfolding validation_error_def
  by (intro and_then_shift) (simp_all add: emit_shift raise_shift)

lemma validation_shift: "validation env (shift p s) = apsnd (shift p) (validation env s)"
proof -
  let ?cv = "getattr_default (ns s) ''_command_validator'' PyNone"
  let ?d = "if truthy (store s) ?cv then validate_cmd_level env ?cv s else validate_arg_level env s"
  have d: "(if truthy (store (shift p s)) (getattr_default (ns (shift p s)) ''_command_validator'' PyNone)
        then validate_cmd_level env (getattr_default (ns (shift p s)) ''_command_validator'' PyNone) (shift p s)
        else validate_arg_level env (shift p s)) = apsnd (shift p) ?d"
    by (simp add: shift_fields validate_cmd_level_shift validate_arg_level_shift)
  obtain r s1 where r: "?d = (r, s1)" by (cases ?d)
  show ?thesis
    unfolding validation_def Let_def d
    by (cases r) (simp_all add: r validation_error_shift shift_fields)
qed

lemma search_implicit_shift:
  "search_implicit env comps info (shift p s) = apsnd (shift p) (search_implicit env comps info s)"
proof (induction comps arbitrary: info s rule: rev_induct)
  case Nil
  show ?case by (simp add: search_implicit_Nil)
next
  case (snoc x xs)
  show ?case
  proof (cases "truthy (store s) info")
    case True
    then show ?thesis by (simp add: search_implicit_truthy shift_fields)
  next
    case False
    then have f: "\<not> truthy (store (shift p s)) info" by (simp add: shift_fields)
    show ?thesis
      unfolding search_implicit_snoc [OF False] search_implicit_snoc [OF f]
      using snoc.IH [of "resolve_deprecate_info env (join '' '' (xs @ [x]))"
          "s\<lparr>trace := trace s @ [Resolve_deprecate_info (join '' '' (xs @ [x]))]\<rparr>"]
      by (simp add: shift_updates)
  qed
qed

lemma synthesize_shift:
  "and_then (lift r) (\<lambda>d. succeed (Some d)) (shift p s) =
     apsnd (shift p) (and_then (lift r) (\<lambda>d. succeed (Some d)) s)"
  by (intro and_then_shift) (simp_all add: lift_shift succeed_shift)

lemma implicit_deprecation_shift:
  "implicit_deprecation env name (shift p s) = apsnd (shift p) (implicit_deprecation env name s)"
  unfolding implicit_deprecation_def
  by (intro and_then_shift)
     (simp_all add: lift_shift search_implicit_shift shift_fields succeed_shift synthesize_shift)

lemma collect_deprecations_shift:
  "collect_deprecations env (shift p s) = apsnd (shift p) (collect_deprecations env s)"
  unfolding collect_deprecations_def
  by (intro and_then_shift)
     (simp_all add: getattr_shift getattr_or_new_list_shift lift_shift shift_fields
        list_append_shift succeed_shift implicit_deprecation_shift split: option.splits)

lemma print_deprecations_shift:
  "print_deprecations env d (shift p s) = apsnd (shift p) (print_deprecations env d s)"
  unfolding print_deprecations_def
  by (intro and_then_shift)
     (simp_all add: emit_shift lift_shift shift_fields emit_all_shift)

lemma result_stage_shift:
  "result_stage env tbl params (shift p s) = apsnd (shift p) (result_stage env tbl params s)"
  unfolding result_stage_def Let_def
  by (intro and_then_shift)
     (simp_all add: getattr_shift call_func_shift emit_shift lift_shift data_get_shift
        succeed_shift)

lemma after_validation_shift:
  "after_validation env tbl (shift p s) = apsnd (shift p) (after_validation env tbl s)"
  unfolding after_validation_def
  by (intro and_then_shift)
     (simp_all add: getattr_shift gets_ns_shift collect_deprecations_shift
        print_deprecations_shift result_stage_shift,
      simp add: modify_def shift_def)

lemma parse_stage_shift:
  "parse_stage env tbl command args (shift p s) =
     apsnd (shift p) (parse_stage env tbl command args s)"
  unfolding parse_stage_def
  by (intro and_then_shift)
     (simp_all add: emit_shift getattr_shift shift_fields,
      auto simp: shift_def split: sum.splits)

lemma run_command_shift:
  "run_command env tbl command args (shift p s) =
     apsnd (shift p) (run_command env tbl command args s)"
  unfolding run_command_def
  by (intro and_then_shift)
     (simp_all add: parse_stage_shift validation_shift after_validation_shift)

subsection \<open>The help token, after the loading\<close>

lemma run_command_same_parser:
  assumes "parse_args env tbl c1 args = parse_args env tbl c2 args"
  shows "run_command env tbl c1 args = run_command env tbl c2 args"
  by (simp add: run_command_def parse_stage_def assms)

lemma argv_trace_swap: "s\<lparr>argv := a, trace := t\<rparr> = s\<lparr>trace := t, argv := a\<rparr>"
  by (cases s) simp

lemma help_runs_agree:
  assumes l: "lower first = ''help''"
    and tbl: "load_command_table env [first] = load_command_table env [''--help'']"
    and parser: "parse_args env (load_command_table env [''--help'']) ''help'' [''--help''] =
       parse_args env (load_command_table env [''--help'']) [] [''--help'']"
  shows "fst (execute env [first] s) = fst (execute env [''--help''] s)
    \<and> drop (length (trace s) + 3) (trace (snd (execute env [first] s))) =
       drop (length (trace s) + 3) (trace (snd (execute env [''--help''] s)))
    \<and> (snd (execute env [first] s))\<lparr>trace := []\<rparr> = (snd (execute env [''--help''] s))\<lparr>trace := []\<rparr>"
proof -
  let ?tbl = "load_command_table env [''--help'']"
  let ?sb = "s\<lparr>trace := [Raise_event EVENT_INVOKER_POST_CMD_TBL_CREATE (Cmd_tbl ?tbl),
                 Parser_load_command_table,
                 Raise_event EVENT_INVOKER_CMD_TBL_LOADED (Parser (top_parser env))],
             argv := [''--help'']\<rparr>"
  let ?p1 = "trace s @ [Raise_event EVENT_INVOKER_PRE_CMD_TBL_CREATE (Args [first]),
              Load_command_table [first], Load_arguments ''help'']"
  let ?p2 = "trace s @ [Raise_event EVENT_INVOKER_PRE_CMD_TBL_CREATE (Args [''--help'']),
              Load_command_table [''--help''], Load_arguments []]"
  obtain r s' where run: "run_command env ?tbl [] [''--help''] ?sb = (r, s')"
    by (cases "run_command env ?tbl [] [''--help''] ?sb")
  have ne: "snd (rudimentary_get_command [first]) \<noteq> []"
    "snd (rudimentary_get_command [''--help'']) \<noteq> []"
    by (simp_all add: rudimentary_get_command_help [OF l] rudimentary_get_command_dashes)
  have "execute env [first] s = run_command env ?tbl ''help'' [''--help''] (shift ?p1 ?sb)"
    by (simp add: execute_nonempty [OF ne(1)] rudimentary_get_command_help [OF l]
        normalize_help_help tbl shift_def argv_trace_swap)
  also have "\<dots> = apsnd (shift ?p1) (run_command env ?tbl ''help'' [''--help''] ?sb)"
    by (rule run_command_shift)
  also have "\<dots> = (r, shift ?p1 s')"
    by (simp add: run_command_same_parser [OF parser] run)
  finally have e1: "execute env [first] s = (r, shift ?p1 s')" .
  have "execute env [''--help''] s = run_command env ?tbl [] [''--help''] (shift ?p2 ?sb)"
    by (simp add: execute_nonempty [OF ne(2)] rudimentary_get_command_dashes
        normalize_help_dashes shift_def argv_trace_swap)
  also have "\<dots> = apsnd (shift ?p2) (run_command env ?tbl [] [''--help''] ?sb)"
    by (rule run_command_shift)
  also have "\<dots> = (r, shift ?p2 s')"
    by (simp add: run)
  finally have e2: "execute env [''--help''] s = (r, shift ?p2 s')" .
  show ?thesis
    by (simp add: e1 e2 shift_def)
qed


lemma help_token_sole:
  assumes "lower first = ''help''"
  shows "execute env [first] s =
     run_command env (load_command_table env [first]) ''help'' [''--help'']
       (s\<lparr>trace := trace s @
            [Raise_event EVENT_INVOKER_PRE_CMD_TBL_CREATE (Args [first]),
             Load_command_table [first],
             Load_arguments ''help'',
             Raise_event EVENT_INVOKER_POST_CMD_TBL_CREATE (Cmd_tbl (load_command_table env [first])),
             Parser_load_command_table,
             Raise_event EVENT_INVOKER_CMD_TBL_LOADED (Parser (top_parser env))],
          argv := [''--help'']\<rparr>)
   \<and> execute env [''--help''] s =
     run_command env (load_command_table env [''--help'']) [] [''--help'']
       (s\<lparr>trace := trace s @
            [Raise_event EVENT_INVOKER_PRE_CMD_TBL_CREATE (Args [''--help'']),
             Load_command_table [''--help''],
             Load_arguments [],
             Raise_event EVENT_INVOKER_POST_CMD_TBL_CREATE (Cmd_tbl (load_command_table env [''--help''])),
             Parser_load_command_table,
             Raise_event EVENT_INVOKER_CMD_TBL_LOADED (Parser (top_parser env))],
          argv := [''--help'']\<rparr>)
   \<and> (load_command_table env [first] = load_command_table env [''--help'']
       \<and> parse_args env (load_command_table env [''--help'']) ''help'' [''--help''] =
           parse_args env (load_command_table env [''--help'']) [] [''--help'']
      \<longrightarrow> fst (execute env [first] s) = fst (execute env [''--help''] s)
        \<and> drop (length (trace s) + 3) (trace (snd (execute env [first] s))) =
           drop (length (trace s) + 3) (trace (snd (execute env [''--help''] s)))
        \<and> (snd (execute env [first] s))\<lparr>trace := []\<rparr> =
           (snd (execute env [''--help''] s))\<lparr>trace := []\<rparr>)"
proof (intro conjI impI)
  show "execute env [first] s =
     run_command env (load_command_table env [first]) ''help'' [''--help'']
       (s\<lparr>trace := trace s @
            [Raise_event EVENT_INVOKER_PRE_CMD_TBL_CREATE (Args [first]),
             Load_command_table [first],
             Load_arguments ''help'',
             Raise_event EVENT_INVOKER_POST_CMD_TBL_CREATE (Cmd_tbl (load_command_table env [first])),
             Parser_load_command_table,
             Raise_event EVENT_INVOKER_CMD_TBL_LOADED (Parser (top_parser env))],
          argv := [''--help'']\<rparr>)"
    using execute_nonempty [of "[first]" env s]
    by (simp add: rudimentary_get_command_help [OF assms] normalize_help_help)
next
  show "execute env [''--help''] s =
     run_command env (load_command_table env [''--help'']) [] [''--help'']
       (s\<lparr>trace := trace s @
            [Raise_event EVENT_INVOKER_PRE_CMD_TBL_CREATE (Args [''--help'']),
             Load_command_table [''--help''],
             Load_arguments [],
             Raise_event EVENT_INVOKER_POST_CMD_TBL_CREATE (Cmd_tbl (load_command_table env [''--help''])),
             Parser_load_command_table,
             Raise_event EVENT_INVOKER_CMD_TBL_LOADED (Parser (top_parser env))],
          argv := [''--help'']\<rparr>)"
    using execute_nonempty [of "[''--help'']" env s]
    by (simp add: rudimentary_get_command_dashes normalize_help_dashes)
next
  assume h: "load_command_table env [first] = load_command_table env [''--help'']
       \<and> parse_args env (load_command_table env [''--help'']) ''help'' [''--help''] =
           parse_args env (load_command_table env [''--help'']) [] [''--help'']"
  from help_runs_agree [OF assms, of env s] h
  show "fst (execute env [first] s) = fst (execute env [''--help''] s)"
    and "drop (length (trace s) + 3) (trace (snd (execute env [first] s))) =
           drop (length (trace s) + 3) (trace (snd (execute env [''--help''] s)))"
    and "(snd (execute env [first] s))\<lparr>trace := []\<rparr> =
           (snd (execute env [''--help''] s))\<lparr>trace := []\<rparr>"
    by blast+
qed

subsection \<open>The help token before other tokens\<close>

lemma and_then_assoc: "and_then (and_then m f) g = and_then m (\<lambda>x. and_then (f x) g)"
  by (rule ext) (simp add: and_then_def split: prod.splits sum.splits)

lemma unshift: "s = shift (trace s) (s\<lparr>trace := []\<rparr>)"
  by (simp add: shift_def)

lemma run_command_parse_actions:
  "\<exists>more. trace (snd (run_command env tbl command args s)) =
     trace s @ [Enable_autocomplete, Raise_event EVENT_INVOKER_PRE_PARSE_ARGS (Args args),
                Parse_args args] @ more"
proof -
  let ?rest = "and_then
       (\<lambda>s. case parse_args env tbl command args (data s) of
              Inl e \<Rightarrow> (Inl e, s)
            | Inr (parsed, h, d) \<Rightarrow> (Inr (), s\<lparr>data := d, ns := parsed, store := h\<rparr>)) (\<lambda>_.
     and_then (getattr ''command'') (\<lambda>command_name.
     and_then (\<lambda>s. emit (Raise_event EVENT_INVOKER_POST_PARSE_ARGS (Parsed command_name (ns s))) s) (\<lambda>_.
     and_then (validation env) (\<lambda>_. after_validation env tbl))))"
  let ?three = "[Enable_autocomplete, Raise_event EVENT_INVOKER_PRE_PARSE_ARGS (Args args),
                Parse_args args]"
  have run: "run_command env tbl command args s = ?rest (s\<lparr>trace := trace s @ ?three\<rparr>)"
    by (simp add: run_command_def parse_stage_def and_then_assoc and_then_emit)
  have sh: "?rest (shift p t) = apsnd (shift p) (?rest t)" for p t
    by (intro and_then_shift)
       (simp_all add: emit_shift getattr_shift shift_fields validation_shift
          after_validation_shift,
        auto simp: shift_def split: sum.splits)
  have "s\<lparr>trace := trace s @ ?three\<rparr> = shift (trace s @ ?three) (s\<lparr>trace := []\<rparr>)"
    by (simp add: shift_def)
  then have "run_command env tbl command args s =
      apsnd (shift (trace s @ ?three)) (?rest (s\<lparr>trace := []\<rparr>))"
    unfolding run by (simp only: sh)
  then have "trace (snd (run_command env tbl command args s)) =
      trace s @ ?three @ trace (snd (?rest (s\<lparr>trace := []\<rparr>)))"
    by (simp add: shift_fields)
  then show ?thesis by blast
qed

lemma rudimentary_get_command_help_rest:
  assumes "lower first = ''help''"
  shows "rudimentary_get_command (first # rest) =
     (join '' '' (''help'' # snd (rudimentary_nouns rest)), ''help'' # fst (rudimentary_nouns rest))"
proof -
  have n: "(first \<noteq> [] \<and> hd first = CHR ''-'') = False"
    using lower_help_not_option [OF assms] by simp
  show ?thesis
    by (simp add: rudimentary_get_command_def case_prod_beta Let_def n assms del: join.simps)
qed

lemma normalize_help_help_rest: "normalize_help (''help'' # rest) = ''--help'' # rest"
  by (simp add: normalize_help_def lower_def lower_char_def)

lemma help_token_rest:
  assumes "lower first = ''help''"
  shows "execute env (first # rest) s =
     run_command env (load_command_table env (first # rest))
       (join '' '' (''help'' # snd (rudimentary_nouns rest)))
       (''--help'' # fst (rudimentary_nouns rest))
       (s\<lparr>trace := trace s @
            [Raise_event EVENT_INVOKER_PRE_CMD_TBL_CREATE (Args (first # rest)),
             Load_command_table (first # rest),
             Load_arguments (join '' '' (''help'' # snd (rudimentary_nouns rest))),
             Raise_event EVENT_INVOKER_POST_CMD_TBL_CREATE
               (Cmd_tbl (load_command_table env (first # rest))),
             Parser_load_command_table,
             Raise_event EVENT_INVOKER_CMD_TBL_LOADED (Parser (top_parser env))],
          argv := ''--help'' # fst (rudimentary_nouns rest)\<rparr>)"
  using execute_nonempty [of "first # rest" env s]
  by (simp add: rudimentary_get_command_help_rest [OF assms] normalize_help_help_rest)

lemma help_token_rest_actions:
  assumes "lower first = ''help''"
  shows "\<exists>more. trace (snd (execute env (first # rest) s)) =
     trace s @
       [Raise_event EVENT_INVOKER_PRE_CMD_TBL_CREATE (Args (first # rest)),
        Load_command_table (first # rest),
        Load_arguments (join '' '' (''help'' # snd (rudimentary_nouns rest))),
        Raise_event EVENT_INVOKER_POST_CMD_TBL_CREATE
          (Cmd_tbl (load_command_table env (first # rest))),
        Parser_load_command_table,
        Raise_event EVENT_INVOKER_CMD_TBL_LOADED (Parser (top_parser env)),
        Enable_autocomplete,
        Raise_event EVENT_INVOKER_PRE_PARSE_ARGS (Args (''--help'' # fst (rudimentary_nouns rest))),
        Parse_args (''--help'' # fst (rudimentary_nouns rest))] @ more"
proof -
  let ?s1 = "s\<lparr>trace := trace s @
            [Raise_event EVENT_INVOKER_PRE_CMD_TBL_CREATE (Args (first # rest)),
             Load_command_table (first # rest),
             Load_arguments (join '' '' (''help'' # snd (rudimentary_nouns rest))),
             Raise_event EVENT_INVOKER_POST_CMD_TBL_CREATE
               (Cmd_tbl (load_command_table env (first # rest))),
             Parser_load_command_table,
             Raise_event EVENT_INVOKER_CMD_TBL_LOADED (Parser (top_parser env))],
          argv := ''--help'' # fst (rudimentary_nouns rest)\<rparr>"
  from run_command_parse_actions [of env "load_command_table env (first # rest)"
      "join '' '' (''help'' # snd (rudimentary_nouns rest))"
      "''--help'' # fst (rudimentary_nouns rest)" ?s1]
  obtain more where "trace (snd (run_command env (load_command_table env (first # rest))
       (join '' '' (''help'' # snd (rudimentary_nouns rest)))
       (''--help'' # fst (rudimentary_nouns rest)) ?s1)) =
     trace ?s1 @ [Enable_autocomplete,
        Raise_event EVENT_INVOKER_PRE_PARSE_ARGS (Args (''--help'' # fst (rudimentary_nouns rest))),
        Parse_args (''--help'' # fst (rudimentary_nouns rest))] @ more"
    by blast
  then show ?thesis
    unfolding help_token_rest [OF assms] by (intro exI [of _ more]) simp
qed


text \<open>
  C8, as the code has it. A first token that is \<open>help\<close> in any letter case is
  rewritten to \<open>--help\<close> before the parsing, whatever follows it: the run goes on,
  from line 136, with the argument list that starts with \<open>--help\<close> and continues with
  the other tokens as the rudimentary command extraction left them (the leading command
  tokens in lower case), and the event before the parsing and the parser are given that
  list. What comes before is done on the token as it was typed: the first event and the
  loader see it, and the loader is asked for the arguments of a command name that starts
  with \<open>help\<close>. So the run on \<open>help\<close> alone and the run on \<open>--help\<close> alone both go
  on with the argument list \<open>--help\<close>, but differ in their first three actions. When
  the loader builds the same table for both and the parser it feeds answers alike, these
  two runs give the same result, do the same actions after those first three, and leave
  the same state.
\<close>

theorem help_token_normalised:
  assumes "lower first = ''help''"
  shows "execute env (first # rest) s =
     run_command env (load_command_table env (first # rest))
       (join '' '' (''help'' # snd (rudimentary_nouns rest)))
       (''--help'' # fst (rudimentary_nouns rest))
       (s\<lparr>trace := trace s @
            [Raise_event EVENT_INVOKER_PRE_CMD_TBL_CREATE (Args (first # rest)),
             Load_command_table (first # rest),
             Load_arguments (join '' '' (''help'' # snd (rudimentary_nouns rest))),
             Raise_event EVENT_INVOKER_POST_CMD_TBL_CREATE
               (Cmd_tbl (load_command_table env (first # rest))),
             Parser_load_command_table,
             Raise_event EVENT_INVOKER_CMD_TBL_LOADED (Parser (top_parser env))],
          argv := ''--help'' # fst (rudimentary_nouns rest)\<rparr>)
   \<and> (\<exists>more. trace (snd (execute env (first # rest) s)) =
       trace s @
         [Raise_event EVENT_INVOKER_PRE_CMD_TBL_CREATE (Args (first # rest)),
          Load_command_table (first # rest),
          Load_arguments (join '' '' (''help'' # snd (rudimentary_nouns rest))),
          Raise_event EVENT_INVOKER_POST_CMD_TBL_CREATE
            (Cmd_tbl (load_command_table env (first # rest))),
          Parser_load_command_table,
          Raise_event EVENT_INVOKER_CMD_TBL_LOADED (Parser (top_parser env)),
          Enable_autocomplete,
          Raise_event EVENT_INVOKER_PRE_PARSE_ARGS
            (Args (''--help'' # fst (rudimentary_nouns rest))),
          Parse_args (''--help'' # fst (rudimentary_nouns rest))] @ more)
   \<and> execute env [first] s =
     run_command env (load_command_table env [first]) ''help'' [''--help'']
       (s\<lparr>trace := trace s @
            [Raise_event EVENT_INVOKER_PRE_CMD_TBL_CREATE (Args [first]),
             Load_command_table [first],
             Load_arguments ''help'',
             Raise_event EVENT_INVOKER_POST_CMD_TBL_CREATE (Cmd_tbl (load_command_table env [first])),
             Parser_load_command_table,
             Raise_event EVENT_INVOKER_CMD_TBL_LOADED (Parser (top_parser env))],
          argv := [''--help'']\<rparr>)
   \<and> execute env [''--help''] s =
     run_command env (load_command_table env [''--help'']) [] [''--help'']
       (s\<lparr>trace := trace s @
            [Raise_event EVENT_INVOKER_PRE_CMD_TBL_CREATE (Args [''--help'']),
             Load_command_table [''--help''],
             Load_arguments [],
             Raise_event EVENT_INVOKER_POST_CMD_TBL_CREATE (Cmd_tbl (load_command_table env [''--help''])),
             Parser_load_command_table,
             Raise_event EVENT_INVOKER_CMD_TBL_LOADED (Parser (top_parser env))],
          argv := [''--help'']\<rparr>)
   \<and> (load_command_table env [first] = load_command_table env [''--help'']
       \<and> parse_args env (load_command_table env [''--help'']) ''help'' [''--help''] =
           parse_args env (load_command_table env [''--help'']) [] [''--help'']
      \<longrightarrow> fst (execute env [first] s) = fst (execute env [''--help''] s)
        \<and> drop (length (trace s) + 3) (trace (snd (execute env [first] s))) =
           drop (length (trace s) + 3) (trace (snd (execute env [''--help''] s)))
        \<and> (snd (execute env [first] s))\<lparr>trace := []\<rparr> =
           (snd (execute env [''--help''] s))\<lparr>trace := []\<rparr>)"
  by (rule conjI [OF help_token_rest [OF assms, of env rest s]
        conjI [OF help_token_rest_actions [OF assms, of env rest s]
          help_token_sole [OF assms, of env s]]])

lemma rudimentary_nouns_VM: "rudimentary_nouns [''VM''] = ([''vm''], [''vm''])"
  by code_simp

lemma lower_VM: "lower ''VM'' = ''vm''"
  by code_simp

lemma help_rest_sample:
  "trace (snd (execute sample_env [''HeLp'', ''VM''] (init_state None))) =
     [Raise_event EVENT_INVOKER_PRE_CMD_TBL_CREATE (Args [''HeLp'', ''VM'']),
      Load_command_table [''HeLp'', ''VM''],
      Load_arguments ''help vm'',
      Raise_event EVENT_INVOKER_POST_CMD_TBL_CREATE (Cmd_tbl sample_table),
      Parser_load_command_table,
      Raise_event EVENT_INVOKER_CMD_TBL_LOADED (Parser (top_parser sample_env)),
      Enable_autocomplete,
      Raise_event EVENT_INVOKER_PRE_PARSE_ARGS (Args [''--help'', ''vm'']),
      Parse_args [''--help'', ''vm'']]"
  by code_simp

theorem help_token_normalised_witness:
  "lower ''HeLp'' = ''help''
   \<and> load_command_table sample_env [''HeLp''] = load_command_table sample_env [''--help'']
   \<and> parse_args sample_env (load_command_table sample_env [''--help'']) ''help'' [''--help''] =
       parse_args sample_env (load_command_table sample_env [''--help'']) [] [''--help'']
   \<and> execute sample_env [''HeLp'', ''VM''] (init_state None) =
     run_command sample_env (load_command_table sample_env [''HeLp'', ''VM'']) ''help vm''
       [''--help'', ''vm'']
       ((init_state None)\<lparr>trace := trace (init_state None) @
            [Raise_event EVENT_INVOKER_PRE_CMD_TBL_CREATE (Args [''HeLp'', ''VM'']),
             Load_command_table [''HeLp'', ''VM''],
             Load_arguments ''help vm'',
             Raise_event EVENT_INVOKER_POST_CMD_TBL_CREATE
               (Cmd_tbl (load_command_table sample_env [''HeLp'', ''VM''])),
             Parser_load_command_table,
             Raise_event EVENT_INVOKER_CMD_TBL_LOADED (Parser (top_parser sample_env))],
          argv := [''--help'', ''vm'']\<rparr>)
   \<and> trace (snd (execute sample_env [''HeLp'', ''VM''] (init_state None))) =
     [Raise_event EVENT_INVOKER_PRE_CMD_TBL_CREATE (Args [''HeLp'', ''VM'']),
      Load_command_table [''HeLp'', ''VM''],
      Load_arguments ''help vm'',
      Raise_event EVENT_INVOKER_POST_CMD_TBL_CREATE (Cmd_tbl sample_table),
      Parser_load_command_table,
      Raise_event EVENT_INVOKER_CMD_TBL_LOADED (Parser (top_parser sample_env)),
      Enable_autocomplete,
      Raise_event EVENT_INVOKER_PRE_PARSE_ARGS (Args [''--help'', ''vm'']),
      Parse_args [''--help'', ''vm'']]
   \<and> fst (execute sample_env [''HeLp''] (init_state None)) =
       fst (execute sample_env [''--help''] (init_state None))
   \<and> drop (length (trace (init_state None)) + 3)
         (trace (snd (execute sample_env [''HeLp''] (init_state None)))) =
       drop (length (trace (init_state None)) + 3)
         (trace (snd (execute sample_env [''--help''] (init_state None))))"
proof -
  have l: "lower ''HeLp'' = ''help''" by code_simp
  have h: "load_command_table sample_env [''HeLp''] = load_command_table sample_env [''--help'']"
    "parse_args sample_env (load_command_table sample_env [''--help'']) ''help'' [''--help''] =
       parse_args sample_env (load_command_table sample_env [''--help'']) [] [''--help'']"
    by (simp_all add: sample_env_def)
  note inst = help_token_normalised [OF l, where env = sample_env and s = "init_state None"
      and rest = "[''VM'']"]
  have run: "execute sample_env [''HeLp'', ''VM''] (init_state None) =
     run_command sample_env (load_command_table sample_env [''HeLp'', ''VM'']) ''help vm''
       [''--help'', ''vm'']
       ((init_state None)\<lparr>trace := trace (init_state None) @
            [Raise_event EVENT_INVOKER_PRE_CMD_TBL_CREATE (Args [''HeLp'', ''VM'']),
             Load_command_table [''HeLp'', ''VM''],
             Load_arguments ''help vm'',
             Raise_event EVENT_INVOKER_POST_CMD_TBL_CREATE
               (Cmd_tbl (load_command_table sample_env [''HeLp'', ''VM''])),
             Parser_load_command_table,
             Raise_event EVENT_INVOKER_CMD_TBL_LOADED (Parser (top_parser sample_env))],
          argv := [''--help'', ''vm'']\<rparr>)"
    using inst by (simp add: rudimentary_nouns_VM lower_VM)
  from inst h have "fst (execute sample_env [''HeLp''] (init_state None)) =
       fst (execute sample_env [''--help''] (init_state None))"
    and "drop (length (trace (init_state None)) + 3)
         (trace (snd (execute sample_env [''HeLp''] (init_state None)))) =
       drop (length (trace (init_state None)) + 3)
         (trace (snd (execute sample_env [''--help''] (init_state None))))"
    by blast+
  with l h run help_rest_sample show ?thesis by (intro conjI)
qed

end
